theory Spec2Isabelle
  imports Main "HOL-Library.Sublist" "HOL-Library.Extended_Nat" "HOL-Library.AList"
begin

section \<open>Python strings\<close>

text \<open>
  A Python \<open>str\<close> is modelled as a \<open>string\<close>: one \<open>char\<close> per code point, for the code
  points 0 to 255. \<open>isspace\<close> lists the code points of that range for which Python's
  \<open>str.isspace\<close> holds; they are what \<open>str.strip()\<close>, \<open>str.lstrip()\<close> and
  \<open>str.rstrip()\<close> remove when called without an argument.
\<close>

definition isspace :: "char \<Rightarrow> bool" where
  "isspace c \<longleftrightarrow> c \<in> set [CHR 0x09, CHR 0x0A, CHR 0x0B, CHR 0x0C, CHR 0x0D,
                          CHR 0x1C, CHR 0x1D, CHR 0x1E, CHR 0x1F, CHR 0x20,
                          CHR 0x85, CHR 0xA0]"

definition lstrip :: "string \<Rightarrow> string" where
  "lstrip s = dropWhile isspace s"

definition rstrip :: "string \<Rightarrow> string" where
  "rstrip s = rev (dropWhile isspace (rev s))"

definition strip_py :: "string \<Rightarrow> string" where
  "strip_py s = rstrip (lstrip s)"

text \<open>
  \<open>s.split('\n')\<close>: a character other than the newline joins the first piece of the
  rest. The result is never the empty list (\<open>''.split('\n') == ['']\<close>), so the second
  branch of the \<open>case\<close> is never taken (lemma \<open>split_nl_not_Nil\<close>).
\<close>

fun split_nl :: "string \<Rightarrow> string list" where
  "split_nl [] = [[]]"
| "split_nl (c # cs) =
     (if c = CHR 0x0A then [] # split_nl cs
      else (case split_nl cs of
              l # ls \<Rightarrow> (c # l) # ls
            | [] \<Rightarrow> [[c]]))"

text \<open>\<open>'\n'.join(lines)\<close>.\<close>

fun join_nl :: "string list \<Rightarrow> string" where
  "join_nl [] = []"
| "join_nl [l] = l"
| "join_nl (l # ls) = l @ CHR 0x0A # join_nl ls"


section \<open>Exceptions\<close>

text \<open>
  The handler of \<open>execute_analysis\<close> is \<open>except Exception\<close>: it catches the classes
  that derive from \<open>Exception\<close> and lets the others through (\<open>SystemExit\<close>,
  \<open>KeyboardInterrupt\<close>, \<open>GeneratorExit\<close>, which derive from \<open>BaseException\<close> only).
  The handler evaluates \<open>str(e)\<close>. The exception object may be of a class that the
  generated code defines, so \<open>str(e)\<close> either returns a text or raises an exception
  itself. An exception is its place in the hierarchy and what \<open>str(e)\<close> does.
\<close>

datatype exn_class = ExceptionClass | BaseExceptionOnly

datatype py_exn = PyExn exn_class string | PyExnStrRaises exn_class py_exn

fun exn_class_of :: "py_exn \<Rightarrow> exn_class" where
  "exn_class_of (PyExn c m) = c"
| "exn_class_of (PyExnStrRaises c e) = c"

fun exn_str :: "py_exn \<Rightarrow> py_exn + string" where
  "exn_str (PyExn c m) = Inr m"
| "exn_str (PyExnStrRaises c e) = Inl e"

definition TypeError_slice :: py_exn where
  "TypeError_slice =
     PyExn ExceptionClass ''slice indices must be integers or None or have an __index__ method''"


section \<open>Segment extraction\<close>

text \<open>
  \<open>re.search(r'<name>(.*?)</name>', text, re.DOTALL)\<close>. The pattern is the literal
  opening tag, a lazy \<open>.*?\<close> that (with \<open>DOTALL\<close>) takes any character, and the
  literal closing tag. \<open>lazy_group cl s\<close> matches \<open>(.*?)\<close> followed by \<open>cl\<close> at the
  start of \<open>s\<close>: the lazy quantifier tries the shortest group first and takes one more
  character each time the rest fails. \<open>re_search op cl s\<close> tries the start positions from
  left to right and returns group 1 of the first match, \<open>None\<close> when no position matches.
\<close>

fun lazy_group :: "string \<Rightarrow> string \<Rightarrow> string option" where
  "lazy_group cl [] = (if prefix cl [] then Some [] else None)"
| "lazy_group cl (c # cs) =
     (if prefix cl (c # cs) then Some []
      else map_option ((#) c) (lazy_group cl cs))"

fun re_search :: "string \<Rightarrow> string \<Rightarrow> string \<Rightarrow> string option" where
  "re_search op cl [] =
     (if prefix op [] then lazy_group cl (drop (length op) []) else None)"
| "re_search op cl (c # cs) =
     (if prefix op (c # cs) then
        (case lazy_group cl (drop (length op) (c # cs)) of
           Some g \<Rightarrow> Some g
         | None \<Rightarrow> re_search op cl cs)
      else re_search op cl cs)"

definition open_tag :: "string \<Rightarrow> string" where
  "open_tag name = ''<'' @ name @ ''>''"

definition close_tag :: "string \<Rightarrow> string" where
  "close_tag name = ''</'' @ name @ ''>''"

definition search_tag :: "string \<Rightarrow> string \<Rightarrow> string option" where
  "search_tag name response_text = re_search (open_tag name) (close_tag name) response_text"

text \<open>
  The dictionary \<open>segments\<close> is an association list in insertion order;
  \<open>segments[k] = v\<close> is \<open>AList.update k v\<close>, \<open>k in segments\<close> is
  \<open>map_of segments k \<noteq> None\<close> and \<open>not segments\<close> is \<open>segments = []\<close>.
\<close>

type_synonym segment_set = "(string \<times> string) list"

definition store_match :: "string \<Rightarrow> string \<Rightarrow> segment_set \<Rightarrow> segment_set" where
  "store_match name response_text segments =
     (case search_tag name response_text of
        Some g \<Rightarrow> AList.update name (strip_py g) segments
      | None \<Rightarrow> segments)"

definition extract_code_segments :: "string \<Rightarrow> segment_set" where
  "extract_code_segments response_text =
     (let segments = [];
          segments = store_match ''approach'' response_text segments;
          segments = store_match ''code'' response_text segments;
          segments = store_match ''chart'' response_text segments;
          segments = store_match ''answer'' response_text segments
      in segments)"

text \<open>The four names that the extractor looks for.\<close>

definition segment_names :: "string list" where
  "segment_names = [''approach'', ''code'', ''chart'', ''answer'']"


section \<open>Source normalization\<close>

text \<open>
  The dedent block of \<open>execute_analysis\<close>, written twice in the source (for the code
  segment and for the chart segment) with the same text. \<open>min_indent\<close> starts at
  \<open>float('inf')\<close>, here \<open>\<infinity>\<close>; a slice \<open>line[min_indent:]\<close> with a float bound
  raises \<open>TypeError\<close>, with an integer bound beyond the end it is the empty string.
\<close>

definition indent_of :: "string \<Rightarrow> nat" where
  "indent_of line = length line - length (lstrip line)"

definition min_indent_of :: "string list \<Rightarrow> enat" where
  "min_indent_of code_lines =
     foldl (\<lambda>min_indent line.
              if strip_py line \<noteq> [] then min min_indent (enat (indent_of line))
              else min_indent)
           \<infinity> code_lines"

definition slice_from :: "enat \<Rightarrow> string \<Rightarrow> py_exn + string" where
  "slice_from min_indent line =
     (case min_indent of enat n \<Rightarrow> Inr (drop n line) | \<infinity> \<Rightarrow> Inl TypeError_slice)"

definition dedent_line :: "enat \<Rightarrow> string \<Rightarrow> py_exn + string" where
  "dedent_line min_indent line =
     (if strip_py line \<noteq> [] then slice_from min_indent line else Inr [])"

fun dedent_lines :: "enat \<Rightarrow> string list \<Rightarrow> py_exn + string list" where
  "dedent_lines min_indent [] = Inr []"
| "dedent_lines min_indent (line # rest) =
     (case dedent_line min_indent line of
        Inl e \<Rightarrow> Inl e
      | Inr l \<Rightarrow>
          (case dedent_lines min_indent rest of
             Inl e \<Rightarrow> Inl e
           | Inr ls \<Rightarrow> Inr (l # ls)))"

definition dedent :: "string \<Rightarrow> py_exn + string" where
  "dedent segment =
     (let code_lines = split_nl (strip_py segment);
          min_indent = min_indent_of code_lines
      in case dedent_lines min_indent code_lines of
           Inl e \<Rightarrow> Inl e
         | Inr ls \<Rightarrow> Inr (join_nl ls))"


section \<open>The Python runtime\<close>

text \<open>
  \<open>exec\<close> and the plotting library are not code of the repository: they are the
  parameters of the model. \<open>'w\<close> is the state of the interpreter (the namespace
  dictionary and the plotting library's current figure), \<open>'df\<close> the dataframe,
  \<open>'fig\<close> a figure object and \<open>'v\<close> the objects a name of the namespace may be bound to.
  \<open>exec_py src w\<close> is the exception \<open>exec(src, namespace)\<close> raises, if any, and the state
  it leaves; \<open>namespace_get k w\<close> is \<open>namespace.get(k)\<close>, which is \<open>None\<close> for a missing
  key; \<open>plt_gcf\<close> always returns a figure (it makes one when there is none).
  \<open>exec_py\<close> is a total function: the model covers generated code that terminates (the
  source sets no deadline, so code that runs forever blocks the call). The calls into
  the plotting library and \<open>st.error\<close> are taken not to raise.
\<close>

record ('w, 'df, 'fig, 'v) runtime =
  new_namespace :: "'df \<Rightarrow> 'w \<Rightarrow> 'w"
  exec_py :: "string \<Rightarrow> 'w \<Rightarrow> py_exn option \<times> 'w"
  namespace_get :: "string \<Rightarrow> 'w \<Rightarrow> 'v option"
  plt_figure :: "'w \<Rightarrow> 'w"
  plt_gcf :: "'w \<Rightarrow> 'fig \<times> 'w"
  plt_close :: "'w \<Rightarrow> 'w"


section \<open>Interpretation of a model output\<close>

record ('fig, 'v) analysis_result =
  approach :: "string option"
  answer :: "'v option"
  figure :: "'fig option"
  code :: "string option"
  chart_code :: "string option"

text \<open>
  The state that \<open>execute_analysis\<close> works on: the interpreter state, the dictionary
  \<open>results\<close> (mutated in place, so the handler returns it as it is when the exception
  arrives), the source texts handed to \<open>exec\<close> in call order, and the messages given to
  \<open>st.error\<close>.
\<close>

record ('w, 'fig, 'v) exec_state =
  world :: "'w"
  results :: "('fig, 'v) analysis_result"
  executed :: "string list"
  st_errors :: "string list"

datatype 's completion = Normal 's | Raised py_exn 's

datatype 's outcome = Returns 's | Propagates py_exn 's

fun final_state :: "'s outcome \<Rightarrow> 's" where
  "final_state (Returns s) = s"
| "final_state (Propagates e s) = s"

definition triple_quote :: string where
  "triple_quote = [CHR 0x27, CHR 0x27, CHR 0x27]"

text \<open>The f-string that joins the dedented code and the answer template.\<close>

definition combined_code :: "string \<Rightarrow> string \<Rightarrow> string" where
  "combined_code dedented_code answer_template =
     [CHR 0x0A] @ dedented_code @ [CHR 0x0A, CHR 0x0A] @
     ''# Format the answer template'' @ [CHR 0x0A] @
     ''answer_text = f'' @ triple_quote @ answer_template @ triple_quote @ [CHR 0x0A]"

definition run_analysis_unit ::
  "('w, 'df, 'fig, 'v) runtime \<Rightarrow> segment_set \<Rightarrow> ('w, 'fig, 'v) exec_state
     \<Rightarrow> ('w, 'fig, 'v) exec_state completion" where
  "run_analysis_unit rt segments s =
     (case (map_of segments ''code'', map_of segments ''answer'') of
        (Some code_segment, Some answer_segment) \<Rightarrow>
          (case dedent code_segment of
             Inl e \<Rightarrow> Raised e s
           | Inr dedented_code \<Rightarrow>
               (let src = combined_code dedented_code answer_segment;
                    (raised, w) = exec_py rt src (world s);
                    s = s\<lparr>world := w, executed := executed s @ [src]\<rparr>
                in case raised of
                     Some e \<Rightarrow> Raised e s
                   | None \<Rightarrow>
                       Normal (s\<lparr>results :=
                         (results s)\<lparr>answer := namespace_get rt ''answer_text'' w\<rparr>\<rparr>)))
      | _ \<Rightarrow> Normal s)"

definition run_chart_unit ::
  "('w, 'df, 'fig, 'v) runtime \<Rightarrow> segment_set \<Rightarrow> ('w, 'fig, 'v) exec_state
     \<Rightarrow> ('w, 'fig, 'v) exec_state completion" where
  "run_chart_unit rt segments s =
     (case map_of segments ''chart'' of
        Some chart_segment \<Rightarrow>
          (case dedent chart_segment of
             Inl e \<Rightarrow> Raised e s
           | Inr dedented_chart \<Rightarrow>
               (let w = plt_figure rt (world s);
                    (raised, w) = exec_py rt dedented_chart w;
                    s = s\<lparr>world := w, executed := executed s @ [dedented_chart]\<rparr>
                in case raised of
                     Some e \<Rightarrow> Raised e s
                   | None \<Rightarrow>
                       (let (fig, w) = plt_gcf rt w;
                            s = s\<lparr>results := (results s)\<lparr>figure := Some fig\<rparr>\<rparr>
                        in Normal (s\<lparr>world := plt_close rt w\<rparr>))))
      | None \<Rightarrow> Normal s)"

definition store_segment ::
  "segment_set \<Rightarrow> string
     \<Rightarrow> (string \<Rightarrow> ('fig, 'v) analysis_result \<Rightarrow> ('fig, 'v) analysis_result)
     \<Rightarrow> ('w, 'fig, 'v) exec_state \<Rightarrow> ('w, 'fig, 'v) exec_state" where
  "store_segment segments key put s =
     (case map_of segments key of
        Some text \<Rightarrow> s\<lparr>results := put text (results s)\<rparr>
      | None \<Rightarrow> s)"

text \<open>The body of the \<open>try\<close> block; both \<open>return results\<close> in it complete normally.\<close>

definition try_body ::
  "('w, 'df, 'fig, 'v) runtime \<Rightarrow> 'df \<Rightarrow> string \<Rightarrow> ('w, 'fig, 'v) exec_state
     \<Rightarrow> ('w, 'fig, 'v) exec_state completion" where
  "try_body rt df response_text s =
     (let segments = extract_code_segments response_text in
      if segments = [] then
        Normal (s\<lparr>st_errors := st_errors s @ [''No code segments found in the response'']\<rparr>)
      else
        (let s = store_segment segments ''approach'' (\<lambda>t r. r\<lparr>approach := Some t\<rparr>) s;
             s = store_segment segments ''code'' (\<lambda>t r. r\<lparr>code := Some t\<rparr>) s;
             s = store_segment segments ''chart'' (\<lambda>t r. r\<lparr>chart_code := Some t\<rparr>) s;
             s = s\<lparr>world := new_namespace rt df (world s)\<rparr>
         in case run_analysis_unit rt segments s of
              Raised e s \<Rightarrow> Raised e s
            | Normal s \<Rightarrow> run_chart_unit rt segments s))"

text \<open>
  \<open>except Exception as e: st.error(f"Error during execution: {str(e)}"); return results\<close>.
  An exception that \<open>str(e)\<close> raises inside the handler leaves the call.
\<close>

definition except_Exception ::
  "('w, 'fig, 'v) exec_state completion \<Rightarrow> ('w, 'fig, 'v) exec_state outcome" where
  "except_Exception c =
     (case c of
        Normal s \<Rightarrow> Returns s
      | Raised e s \<Rightarrow>
          (if exn_class_of e = ExceptionClass then
             (case exn_str e of
                Inr msg \<Rightarrow>
                  Returns (s\<lparr>st_errors := st_errors s @ [''Error during execution: '' @ msg]\<rparr>)
              | Inl e' \<Rightarrow> Propagates e' s)
           else Propagates e s))"

definition empty_results :: "('fig, 'v) analysis_result" where
  "empty_results =
     \<lparr>approach = None, answer = None, figure = None, code = None, chart_code = None\<rparr>"

definition execute_analysis ::
  "('w, 'df, 'fig, 'v) runtime \<Rightarrow> 'w \<Rightarrow> 'df \<Rightarrow> string
     \<Rightarrow> ('w, 'fig, 'v) exec_state outcome" where
  "execute_analysis rt w df response_text =
     (let s = \<lparr>world = w, results = empty_results, executed = [], st_errors = []\<rparr>
      in except_Exception (try_body rt df response_text s))"


text \<open>
  Two names for the proofs. \<open>completion_state\<close> is the state at the end of the \<open>try\<close>
  block, however it ended. \<open>stored_state\<close> is the state when the stores of the raw
  texts and the creation of the namespace are done, before the first unit.
\<close>

fun completion_state :: "'s completion \<Rightarrow> 's" where
  "completion_state (Normal s) = s"
| "completion_state (Raised e s) = s"

definition stored_state ::
  "('w, 'df, 'fig, 'v) runtime \<Rightarrow> 'w \<Rightarrow> 'df \<Rightarrow> segment_set \<Rightarrow> ('w, 'fig, 'v) exec_state" where
  "stored_state rt w df segments =
     \<lparr>world = new_namespace rt df w,
      results = \<lparr>approach = map_of segments ''approach'', answer = None, figure = None,
                 code = map_of segments ''code'', chart_code = map_of segments ''chart''\<rparr>,
      executed = [], st_errors = []\<rparr>"


section \<open>A scripted runtime\<close>

text \<open>
  A runtime for concrete runs. Its interpreter state is the binding of \<open>answer_text\<close>
  (if any) and the number of figures made; a script says, for the source texts it
  lists, which exception \<open>exec\<close> raises and what it binds \<open>answer_text\<close> to. A source
  text that the script does not list runs without effect.
\<close>

type_synonym script = "(string \<times> py_exn option \<times> string option) list"

definition scripted_exec ::
  "script \<Rightarrow> string \<Rightarrow> string option \<times> nat \<Rightarrow> py_exn option \<times> string option \<times> nat" where
  "scripted_exec script src w =
     (case map_of script src of
        None \<Rightarrow> (None, w)
      | Some (raised, binding) \<Rightarrow>
          (raised, (case binding of None \<Rightarrow> fst w | Some v \<Rightarrow> Some v), snd w))"

definition scripted_runtime ::
  "script \<Rightarrow> (string option \<times> nat, unit, nat, string) runtime" where
  "scripted_runtime script =
     \<lparr>new_namespace = (\<lambda>df w. (None, snd w)),
      exec_py = scripted_exec script,
      namespace_get = (\<lambda>k w. if k = ''answer_text'' then fst w else None),
      plt_figure = (\<lambda>w. (fst w, Suc (snd w))),
      plt_gcf = (\<lambda>w. (snd w, w)),
      plt_close = (\<lambda>w. (fst w, snd w - 1))\<rparr>"

definition SyntaxError :: "string \<Rightarrow> py_exn" where
  "SyntaxError msg = PyExn ExceptionClass msg"

definition SystemExit :: py_exn where
  "SystemExit = PyExn BaseExceptionOnly []"


section \<open>Facts about the string operations\<close>

lemma split_nl_not_Nil: "split_nl s \<noteq> []"
  by (induction s) (auto split: list.splits)

lemma split_nl_Cons_other:
  "c \<noteq> CHR 0x0A \<Longrightarrow> split_nl (c # cs) = (c # hd (split_nl cs)) # tl (split_nl cs)"
  using split_nl_not_Nil [of cs] by (cases "split_nl cs") auto

lemma join_split_nl: "join_nl (split_nl s) = s"
proof (induction s)
  case Nil
  show ?case by simp
next
  case (Cons c cs)
  obtain l ls where eq: "split_nl cs = l # ls"
    using split_nl_not_Nil [of cs] by (cases "split_nl cs") auto
  show ?case
  proof (cases "c = CHR 0x0A")
    case True
    with Cons eq show ?thesis by simp
  next
    case False
    with Cons eq show ?thesis by (cases ls) auto
  qed
qed

lemma split_nl_lines_no_nl: "l \<in> set (split_nl s) \<Longrightarrow> CHR 0x0A \<notin> set l"
proof (induction s arbitrary: l)
  case Nil
  then show ?case by simp
next
  case (Cons c cs)
  obtain l' ls where eq: "split_nl cs = l' # ls"
    using split_nl_not_Nil [of cs] by (cases "split_nl cs") auto
  from Cons eq show ?case by (auto split: if_splits)
qed

lemma split_nl_single: "CHR 0x0A \<notin> set l \<Longrightarrow> split_nl l = [l]"
  by (induction l) auto

lemma split_nl_append_nl:
  "CHR 0x0A \<notin> set l \<Longrightarrow> split_nl (l @ CHR 0x0A # r) = l # split_nl r"
  by (induction l) auto

lemma split_join_nl:
  "ls \<noteq> [] \<Longrightarrow> \<forall>l\<in>set ls. CHR 0x0A \<notin> set l \<Longrightarrow> split_nl (join_nl ls) = ls"
proof (induction ls rule: join_nl.induct)
  case 1
  then show ?case by simp
next
  case (2 l)
  then show ?case by (simp add: split_nl_single)
next
  case (3 l v va)
  then show ?case by (simp add: split_nl_append_nl)
qed

lemma isspace_nl: "isspace (CHR 0x0A)"
  by (simp add: isspace_def)

lemma lstrip_hd: "lstrip s \<noteq> [] \<Longrightarrow> \<not> isspace (hd (lstrip s))"
  unfolding lstrip_def by (rule hd_dropWhile)

lemma rstrip_last: "rstrip s \<noteq> [] \<Longrightarrow> \<not> isspace (last (rstrip s))"
  unfolding rstrip_def using hd_dropWhile [of isspace "rev s"] by (simp add: last_rev)


lemma rstrip_prefix: "\<exists>r. s = rstrip s @ r"
proof -
  have "rev (takeWhile isspace (rev s) @ dropWhile isspace (rev s)) = rev (rev s)"
    by (simp only: takeWhile_dropWhile_id)
  then have "s = rstrip s @ rev (takeWhile isspace (rev s))"
    by (simp only: rev_append rev_rev_ident rstrip_def)
  then show ?thesis ..
qed

lemma rstrip_hd: "rstrip s \<noteq> [] \<Longrightarrow> hd (rstrip s) = hd s"
proof -
  assume ne: "rstrip s \<noteq> []"
  obtain r where "s = rstrip s @ r" using rstrip_prefix by blast
  then have "hd s = hd (rstrip s @ r)" by simp
  with ne show ?thesis by simp
qed

lemma strip_py_ends:
  assumes "strip_py s \<noteq> []"
  shows "\<not> isspace (hd (strip_py s))" and "\<not> isspace (last (strip_py s))"
proof -
  from assms have ne: "rstrip (lstrip s) \<noteq> []" by (simp add: strip_py_def)
  then have "lstrip s \<noteq> []" by (auto simp: rstrip_def)
  then have "\<not> isspace (hd (lstrip s))" by (rule lstrip_hd)
  with rstrip_hd [OF ne] show "\<not> isspace (hd (strip_py s))" by (simp add: strip_py_def)
  from rstrip_last [OF ne] show "\<not> isspace (last (strip_py s))" by (simp add: strip_py_def)
qed

lemma strip_py_fix:
  assumes "s \<noteq> []" "\<not> isspace (hd s)" "\<not> isspace (last s)"
  shows "strip_py s = s"
proof -
  from assms have l: "lstrip s = s" by (simp add: lstrip_def dropWhile_eq_self_iff)
  from assms have "rev s \<noteq> []" "\<not> isspace (hd (rev s))" by (simp_all add: hd_rev)
  then have "dropWhile isspace (rev s) = rev s" by (simp add: dropWhile_eq_self_iff)
  then have "rstrip s = s" by (simp add: rstrip_def)
  with l show ?thesis by (simp add: strip_py_def)
qed

lemma strip_py_Nil [simp]: "strip_py [] = []"
  by (simp add: strip_py_def lstrip_def rstrip_def)

lemma strip_py_idem: "strip_py (strip_py s) = strip_py s"
proof (cases "strip_py s = []")
  case True
  then show ?thesis by simp
next
  case False
  then show ?thesis using strip_py_ends [OF False] by (intro strip_py_fix)
qed

lemma strip_py_empty_iff: "strip_py l = [] \<longleftrightarrow> (\<forall>c\<in>set l. isspace c)"
proof
  assume e: "strip_py l = []"
  have "lstrip l = []"
  proof (rule ccontr)
    assume ne: "lstrip l \<noteq> []"
    from e have "\<forall>c\<in>set (lstrip l). isspace c"
      by (simp add: strip_py_def rstrip_def)
    with ne have "isspace (hd (lstrip l))" by simp
    with lstrip_hd [OF ne] show False by simp
  qed
  then show "\<forall>c\<in>set l. isspace c" by (simp add: lstrip_def)
next
  assume "\<forall>c\<in>set l. isspace c"
  then have "lstrip l = []" by (simp add: lstrip_def)
  then show "strip_py l = []" by (simp add: strip_py_def rstrip_def)
qed

lemma indent_of_takeWhile: "indent_of l = length (takeWhile isspace l)"
proof -
  have "length l = length (takeWhile isspace l) + length (dropWhile isspace l)"
    by (simp flip: length_append)
  then show ?thesis by (simp add: indent_of_def lstrip_def)
qed

lemma drop_within_indent:
  assumes nb: "strip_py l \<noteq> []" and k: "k \<le> indent_of l"
  shows "strip_py (drop k l) \<noteq> []" and "indent_of (drop k l) = indent_of l - k"
proof -
  let ?tw = "takeWhile isspace l" and ?dw = "dropWhile isspace l"
  from nb have "\<exists>c\<in>set l. \<not> isspace c" by (simp add: strip_py_empty_iff)
  then have dw: "?dw \<noteq> []" by simp
  then have hd: "\<not> isspace (hd ?dw)" by (rule hd_dropWhile)
  have "drop k l = drop k (?tw @ ?dw)" by simp
  also have "\<dots> = drop k ?tw @ ?dw"
    using k by (simp add: indent_of_takeWhile del: takeWhile_dropWhile_id)
  finally have eq: "drop k l = drop k ?tw @ ?dw" .
  from dw have "hd ?dw \<in> set (drop k l)" unfolding eq by simp
  with hd show "strip_py (drop k l) \<noteq> []" by (auto simp: strip_py_empty_iff)
  have all: "\<forall>c\<in>set (drop k ?tw). isspace c"
    by (meson in_set_dropD set_takeWhileD)
  obtain d ds where dd: "?dw = d # ds" using dw by (cases ?dw) auto
  with hd have "\<not> isspace d" by simp
  with all have "takeWhile isspace (drop k ?tw @ d # ds) = drop k ?tw"
    by simp
  then show "indent_of (drop k l) = indent_of l - k"
    unfolding eq dd [symmetric] indent_of_takeWhile by simp
qed


section \<open>Facts about the dedent block\<close>

lemma min_indent_foldl:
  "foldl (\<lambda>min_indent line.
            if strip_py line \<noteq> [] then min min_indent (enat (indent_of line))
            else min_indent) a ls
   = min a (min_indent_of ls)"
proof -
  define F where "F = (\<lambda>min_indent line.
            if strip_py line \<noteq> [] then min min_indent (enat (indent_of line))
            else min_indent)"
  have step: "F a l = min a (F \<infinity> l)" for a l
    by (simp add: F_def)
  have "foldl F a ls = min a (foldl F \<infinity> ls)"
  proof (induction ls arbitrary: a)
    case Nil
    show ?case by simp
  next
    case (Cons l ls)
    have "foldl F a (l # ls) = min (F a l) (foldl F \<infinity> ls)"
      using Cons [of "F a l"] by simp
    also have "\<dots> = min a (min (F \<infinity> l) (foldl F \<infinity> ls))"
      by (subst step) (simp only: min.assoc)
    also have "min (F \<infinity> l) (foldl F \<infinity> ls) = foldl F \<infinity> (l # ls)"
      using Cons [of "F \<infinity> l"] by simp
    finally show ?case .
  qed
  then show ?thesis by (simp only: F_def min_indent_of_def)
qed

lemma min_indent_of_Nil: "min_indent_of [] = \<infinity>"
  by (simp add: min_indent_of_def)

lemma min_indent_of_Cons:
  "min_indent_of (l # ls) =
     min (if strip_py l \<noteq> [] then enat (indent_of l) else \<infinity>) (min_indent_of ls)"
proof -
  have "min_indent_of (l # ls) =
        foldl (\<lambda>min_indent line.
            if strip_py line \<noteq> [] then min min_indent (enat (indent_of line))
            else min_indent) (if strip_py l \<noteq> [] then enat (indent_of l) else \<infinity>) ls"
    by (simp add: min_indent_of_def)
  then show ?thesis by (simp only: min_indent_foldl)
qed

lemma min_indent_of_le:
  "l \<in> set ls \<Longrightarrow> strip_py l \<noteq> [] \<Longrightarrow> min_indent_of ls \<le> enat (indent_of l)"
proof (induction ls)
  case Nil
  then show ?case by simp
next
  case (Cons a ls)
  then show ?case
    by (auto simp: min_indent_of_Cons min_le_iff_disj)
qed

lemma min_indent_of_finite:
  assumes "l \<in> set ls" "strip_py l \<noteq> []"
  obtains k where "min_indent_of ls = enat k" "k \<le> indent_of l"
proof -
  from min_indent_of_le [OF assms] obtain k where "min_indent_of ls = enat k"
    by (cases "min_indent_of ls") auto
  with min_indent_of_le [OF assms] that show ?thesis by simp
qed

lemma dedent_lines_enat:
  "dedent_lines (enat k) ls = Inr (map (\<lambda>l. if strip_py l \<noteq> [] then drop k l else []) ls)"
  by (induction ls) (simp_all add: dedent_line_def slice_from_def)

lemma dedent_lines_blank:
  "\<forall>l\<in>set ls. strip_py l = [] \<Longrightarrow> dedent_lines m ls = Inr (map (\<lambda>l. []) ls)"
  by (induction ls) (simp_all add: dedent_line_def)

text \<open>The slice never sees \<open>float('inf')\<close>: the dedent block raises nothing.\<close>

lemma dedent_lines_min_indent:
  "\<exists>k. (\<forall>l\<in>set ls. strip_py l \<noteq> [] \<longrightarrow> min_indent_of ls = enat k \<and> k \<le> indent_of l) \<and>
       dedent_lines (min_indent_of ls) ls
         = Inr (map (\<lambda>l. if strip_py l \<noteq> [] then drop k l else []) ls)"
proof (cases "\<exists>l\<in>set ls. strip_py l \<noteq> []")
  case True
  then obtain l where l: "l \<in> set ls" "strip_py l \<noteq> []" by blast
  then obtain k where k: "min_indent_of ls = enat k"
    by (rule min_indent_of_finite)
  have "\<forall>l\<in>set ls. strip_py l \<noteq> [] \<longrightarrow> k \<le> indent_of l"
    using min_indent_of_le [of _ ls] k by auto
  with k show ?thesis by (auto simp: dedent_lines_enat)
next
  case False
  then have blank: "\<forall>l\<in>set ls. strip_py l = []" by blast
  then have "dedent_lines (min_indent_of ls) ls = Inr (map (\<lambda>l. []) ls)"
    by (rule dedent_lines_blank)
  also have "map (\<lambda>l. []) ls = map (\<lambda>l. if strip_py l \<noteq> [] then drop 0 l else []) ls"
    using blank by (intro map_cong) auto
  finally show ?thesis using blank by blast
qed

text \<open>
  After the trim the first line starts with a character that is not white space, so the
  minimum is 0 as soon as the text is not empty: the block only empties the blank lines.
\<close>

lemma split_nl_first_line:
  "c \<noteq> CHR 0x0A \<Longrightarrow> \<exists>l ls. split_nl (c # cs) = (c # l) # ls"
  using split_nl_not_Nil [of cs] by (cases "split_nl cs") auto

lemma min_indent_of_trimmed:
  assumes "strip_py t \<noteq> []"
  shows "min_indent_of (split_nl (strip_py t)) = enat 0"
proof -
  obtain c cs where t: "strip_py t = c # cs" using assms by (cases "strip_py t") auto
  with strip_py_ends(1) [OF assms] have c: "\<not> isspace c" by simp
  then have "c \<noteq> CHR 0x0A" using isspace_nl by auto
  then obtain l ls where sp: "split_nl (c # cs) = (c # l) # ls"
    using split_nl_first_line by blast
  from c have nb: "strip_py (c # l) \<noteq> []" by (auto simp: strip_py_empty_iff)
  from c have "indent_of (c # l) = 0" by (simp add: indent_of_takeWhile)
  with min_indent_of_le [of "c # l" "(c # l) # ls", OF _ nb]
  have "min_indent_of ((c # l) # ls) \<le> enat 0" by simp
  then show ?thesis unfolding t sp by (simp flip: zero_enat_def)
qed

lemma dedent_eq:
  "dedent x = Inr (join_nl (map (\<lambda>l. if strip_py l \<noteq> [] then l else [])
                               (split_nl (strip_py x))))"
proof (cases "strip_py x = []")
  case True
  then show ?thesis
    by (simp add: dedent_def min_indent_of_def dedent_line_def)
next
  case False
  then show ?thesis
    by (simp add: dedent_def min_indent_of_trimmed dedent_lines_enat cong: if_cong)
qed


section \<open>The over-indented block of the specification\<close>

text \<open>
  C3. The specification's example: the inner text of a \<open><code>\<close> block whose two lines
  are both indented by four spaces is said to normalize to \<open>total = 1\<close>, newline,
  \<open>avg = 2\<close>. The dedent block trims the text before it splits it into lines, so the
  first line has lost its indentation when the minimum is taken: the minimum is 0 and
  the second line keeps its four spaces. The extractor, which trims too, stores the
  same text under \<open>code\<close>.
\<close>

theorem over_indented_block_keeps_second_indent:
  "dedent ''\<newline>    total = 1\<newline>    avg = 2\<newline>'' = Inr ''total = 1\<newline>    avg = 2''
   \<and> dedent ''\<newline>    total = 1\<newline>    avg = 2\<newline>'' \<noteq> Inr ''total = 1\<newline>avg = 2''
   \<and> map_of (extract_code_segments ''<code>\<newline>    total = 1\<newline>    avg = 2\<newline></code>'') ''code''
       = Some ''total = 1\<newline>    avg = 2''"
  by (simp add: dedent_def strip_py_def lstrip_def rstrip_def isspace_def min_indent_of_def
      indent_of_def dedent_line_def slice_from_def extract_code_segments_def store_match_def
      search_tag_def open_tag_def close_tag_def)


section \<open>Normalization is idempotent\<close>

lemma join_nl_Cons: "join_nl (l # ls) = (if ls = [] then l else l @ CHR 0x0A # join_nl ls)"
  by (cases ls) simp_all

lemma hd_join_nl: "l \<noteq> [] \<Longrightarrow> hd (join_nl (l # ls)) = hd l"
  by (simp add: join_nl_Cons)

lemma join_nl_hd_empty:
  "join_nl ([] # ls) = [] \<or> hd (join_nl ([] # ls)) = CHR 0x0A"
  by (simp add: join_nl_Cons)

lemma join_nl_eq_Nil: "join_nl ls = [] \<longleftrightarrow> ls = [] \<or> ls = [[]]"
  by (induction ls rule: join_nl.induct) auto

lemma last_join_nl: "ls \<noteq> [] \<Longrightarrow> last ls \<noteq> [] \<Longrightarrow> last (join_nl ls) = last (last ls)"
proof (induction ls rule: join_nl.induct)
  case 1
  then show ?case by simp
next
  case (2 l)
  then show ?case by simp
next
  case (3 l v va)
  from "3.prems" have "join_nl (v # va) \<noteq> []" by (auto simp: join_nl_eq_Nil)
  with 3 show ?case by simp
qed

lemma join_nl_last_empty:
  "ls \<noteq> [] \<Longrightarrow> last ls = [] \<Longrightarrow> join_nl ls = [] \<or> last (join_nl ls) = CHR 0x0A"
proof (induction ls rule: join_nl.induct)
  case 1
  then show ?case by simp
next
  case (2 l)
  then show ?case by simp
next
  case (3 l v va)
  then show ?case by (cases "join_nl (v # va) = []") auto
qed

lemma join_nl_not_Nil: "l \<noteq> [] \<Longrightarrow> join_nl (l # ls) \<noteq> []"
  by (simp add: join_nl_Cons)

text \<open>The first and the last line of a trimmed, non-empty text are not blank.\<close>

lemma trimmed_first_line:
  assumes "strip_py t \<noteq> []"
  shows "hd (split_nl (strip_py t)) \<noteq> []"
    and "hd (hd (split_nl (strip_py t))) = hd (strip_py t)"
proof -
  let ?L = "split_nl (strip_py t)"
  obtain l ls where L: "?L = l # ls" using split_nl_not_Nil [of "strip_py t"] by (cases ?L) auto
  have j: "join_nl (l # ls) = strip_py t" using join_split_nl [of "strip_py t"] L by simp
  have "l \<noteq> []"
  proof
    assume "l = []"
    with join_nl_hd_empty [of ls] j have "strip_py t = [] \<or> hd (strip_py t) = CHR 0x0A" by simp
    with assms strip_py_ends(1) [OF assms] isspace_nl show False by auto
  qed
  then show "hd ?L \<noteq> []" using L by simp
  from \<open>l \<noteq> []\<close> hd_join_nl [of l ls] j show "hd (hd ?L) = hd (strip_py t)" using L by simp
qed

lemma trimmed_last_line:
  assumes "strip_py t \<noteq> []"
  shows "last (split_nl (strip_py t)) \<noteq> []"
    and "last (last (split_nl (strip_py t))) = last (strip_py t)"
proof -
  let ?L = "split_nl (strip_py t)"
  have ne: "?L \<noteq> []" by (rule split_nl_not_Nil)
  have j: "join_nl ?L = strip_py t" by (rule join_split_nl)
  show l: "last ?L \<noteq> []"
  proof
    assume "last ?L = []"
    with join_nl_last_empty [OF ne] j have "strip_py t = [] \<or> last (strip_py t) = CHR 0x0A" by simp
    with assms strip_py_ends(2) [OF assms] isspace_nl show False by auto
  qed
  from last_join_nl [OF ne l] j show "last (last ?L) = last (strip_py t)" by simp
qed

lemma nonblank_if_hd: "l \<noteq> [] \<Longrightarrow> \<not> isspace (hd l) \<Longrightarrow> strip_py l \<noteq> []"
  by (auto simp: strip_py_empty_iff)

lemma nonblank_if_last: "l \<noteq> [] \<Longrightarrow> \<not> isspace (last l) \<Longrightarrow> strip_py l \<noteq> []"
  by (auto simp: strip_py_empty_iff)

text \<open>The text that the dedent block returns is trimmed and splits into the lines it was joined from.\<close>

lemma dedent_result_trimmed:
  "strip_py (join_nl (map (\<lambda>l. if strip_py l \<noteq> [] then l else []) (split_nl (strip_py x))))
   = join_nl (map (\<lambda>l. if strip_py l \<noteq> [] then l else []) (split_nl (strip_py x)))"
proof (cases "strip_py x = []")
  case True
  then show ?thesis by simp
next
  case False
  let ?b = "\<lambda>l. if strip_py l \<noteq> [] then l else []"
  let ?L = "split_nl (strip_py x)"
  have ne: "?L \<noteq> []" by (rule split_nl_not_Nil)
  have h1: "hd ?L \<noteq> []" and h2: "hd (hd ?L) = hd (strip_py x)"
    using trimmed_first_line [OF False] by simp_all
  have l1: "last ?L \<noteq> []" and l2: "last (last ?L) = last (strip_py x)"
    using trimmed_last_line [OF False] by simp_all
  have bh: "strip_py (hd ?L) \<noteq> []"
    using nonblank_if_hd [OF h1] h2 strip_py_ends(1) [OF False] by simp
  have bl: "strip_py (last ?L) \<noteq> []"
    using nonblank_if_last [OF l1] l2 strip_py_ends(2) [OF False] by simp
  obtain l ls where L: "?L = l # ls" using ne by (cases ?L) auto
  from bh L have "strip_py l \<noteq> []" by simp
  then have N: "join_nl (map ?b ?L) = join_nl (l # map ?b ls)" unfolding L by simp
  have "l \<noteq> []" using h1 L by simp
  then have n1: "join_nl (map ?b ?L) \<noteq> []" and n2: "hd (join_nl (map ?b ?L)) = hd l"
    unfolding N by (simp_all add: join_nl_not_Nil hd_join_nl)
  have "last (map ?b ?L) = last ?L" using ne bl by (simp add: last_map)
  then have n3: "last (join_nl (map ?b ?L)) = last (last ?L)"
    using last_join_nl [of "map ?b ?L"] ne l1 by simp
  show ?thesis
  proof (rule strip_py_fix [OF n1])
    show "\<not> isspace (hd (join_nl (map ?b ?L)))"
      using n2 h2 L strip_py_ends(1) [OF False] by simp
    show "\<not> isspace (last (join_nl (map ?b ?L)))"
      using n3 l2 strip_py_ends(2) [OF False] by simp
  qed
qed

lemma dedent_result_lines:
  "split_nl (join_nl (map (\<lambda>l. if strip_py l \<noteq> [] then drop k l else []) (split_nl t)))
   = map (\<lambda>l. if strip_py l \<noteq> [] then drop k l else []) (split_nl t)"
proof (rule split_join_nl)
  show "map (\<lambda>l. if strip_py l \<noteq> [] then drop k l else []) (split_nl t) \<noteq> []"
    by (simp add: split_nl_not_Nil)
  show "\<forall>l\<in>set (map (\<lambda>l. if strip_py l \<noteq> [] then drop k l else []) (split_nl t)).
          CHR 0x0A \<notin> set l"
    using split_nl_lines_no_nl [of _ t] by (auto dest: in_set_dropD)
qed

text \<open>
  C5. Source normalization is idempotent: for every text, the dedent block returns a
  text (it raises nothing), and applied to that text it returns it unchanged.
\<close>

theorem dedent_idempotent: "\<exists>y. dedent x = Inr y \<and> dedent y = Inr y"
proof -
  let ?b = "\<lambda>l. if strip_py l \<noteq> [] then l else []"
  let ?y = "join_nl (map ?b (split_nl (strip_py x)))"
  have bb: "?b (?b l) = ?b l" for l by simp
  have lines: "split_nl ?y = map ?b (split_nl (strip_py x))"
    using dedent_result_lines [of 0 "strip_py x"] by (simp cong: if_cong)
  have "dedent ?y = Inr (join_nl (map ?b (split_nl (strip_py ?y))))"
    by (rule dedent_eq)
  also have "strip_py ?y = ?y" by (rule dedent_result_trimmed)
  also have "map ?b (split_nl ?y) = map ?b (split_nl (strip_py x))"
    unfolding lines by (simp cong: if_cong)
  finally have "dedent ?y = Inr ?y" .
  with dedent_eq [of x] show ?thesis by simp
qed


section \<open>Relative indentation\<close>

text \<open>Every text that the extractor stores is trimmed.\<close>

lemma store_match_trimmed:
  assumes "\<forall>k v. map_of segments k = Some v \<longrightarrow> strip_py v = v"
  shows "\<forall>k v. map_of (store_match name response_text segments) k = Some v \<longrightarrow> strip_py v = v"
  using assms
  by (auto simp: store_match_def update_conv' strip_py_idem split: option.splits if_splits)

lemma extracted_segment_trimmed:
  assumes "map_of (extract_code_segments response_text) name = Some segment"
  shows "strip_py segment = segment"
proof -
  have "\<forall>k v. map_of ([] :: segment_set) k = Some v \<longrightarrow> strip_py v = v" by simp
  then have "\<forall>k v. map_of (extract_code_segments response_text) k = Some v \<longrightarrow> strip_py v = v"
    unfolding extract_code_segments_def Let_def by (intro store_match_trimmed)
  with assms show ?thesis by blast
qed

text \<open>
  What the dedent block does to the lines it iterates over: the same width \<open>k\<close>, the
  minimum over the non-blank lines, is cut from each non-blank line, and a blank line
  becomes the empty line.
\<close>

lemma dedent_lines_of:
  "\<exists>out k. dedent x = Inr out \<and>
     split_nl out = map (\<lambda>l. if strip_py l \<noteq> [] then drop k l else []) (split_nl (strip_py x)) \<and>
     (\<forall>l\<in>set (split_nl (strip_py x)). strip_py l \<noteq> [] \<longrightarrow>
        min_indent_of (split_nl (strip_py x)) = enat k \<and> k \<le> indent_of l)"
proof -
  let ?L = "split_nl (strip_py x)"
  from dedent_lines_min_indent [of ?L] obtain k where
    k: "\<forall>l\<in>set ?L. strip_py l \<noteq> [] \<longrightarrow> min_indent_of ?L = enat k \<and> k \<le> indent_of l"
    and d: "dedent_lines (min_indent_of ?L) ?L
              = Inr (map (\<lambda>l. if strip_py l \<noteq> [] then drop k l else []) ?L)"
    by blast
  from d have "dedent x = Inr (join_nl (map (\<lambda>l. if strip_py l \<noteq> [] then drop k l else []) ?L))"
    by (simp add: dedent_def)
  with k dedent_result_lines [of k "strip_py x"] show ?thesis by blast
qed

text \<open>
  C6. Relative indentation is not preserved. The dedent block trims the text before it
  splits it into lines and takes the minimum, so the first non-blank line has lost its
  own indentation, the minimum is 0 and no other line is cut. In the block below the
  line \<open>b = 1\<close> is indented 2 characters more than the line \<open>if a:\<close> before the step and
  4 characters more after it. The extractor, which trims too, stores the same text.
\<close>

theorem dedent_changes_relative_indentation:
  "split_nl ''\<newline>  if a:\<newline>    b = 1\<newline>'' = ['''', ''  if a:'', ''    b = 1'', '''']
   \<and> indent_of ''    b = 1'' = indent_of ''  if a:'' + 2
   \<and> dedent ''\<newline>  if a:\<newline>    b = 1\<newline>'' = Inr ''if a:\<newline>    b = 1''
   \<and> split_nl ''if a:\<newline>    b = 1'' = [''if a:'', ''    b = 1'']
   \<and> indent_of ''    b = 1'' = indent_of ''if a:'' + 4
   \<and> map_of (extract_code_segments
               ''<code>\<newline>  if a:\<newline>    b = 1\<newline></code><answer>ok</answer>'') ''code''
       = Some ''if a:\<newline>    b = 1''"
  by (simp add: dedent_def strip_py_def lstrip_def rstrip_def isspace_def min_indent_of_def
      indent_of_def dedent_line_def slice_from_def extract_code_segments_def store_match_def
      search_tag_def open_tag_def close_tag_def)

text \<open>
  What does hold: on a segment as the extractor stores it, which is trimmed already, the
  lines keep their differences of indentation, because the width \<open>m\<close> that is cut is 0
  as soon as a line is not blank (lemma \<open>min_indent_of_trimmed\<close>); the step only turns
  blank lines into empty lines.
\<close>

lemma dedent_on_stored_segment:

  assumes "map_of (extract_code_segments response_text) name = Some segment"
  shows "\<exists>out m. dedent segment = Inr out \<and>
     length (split_nl out) = length (split_nl segment) \<and>
     (\<forall>i<length (split_nl segment).
        if strip_py (split_nl segment ! i) \<noteq> [] then
          min_indent_of (split_nl segment) = enat m \<and>
          m \<le> indent_of (split_nl segment ! i) \<and>
          split_nl out ! i = drop m (split_nl segment ! i) \<and>
          strip_py (split_nl out ! i) \<noteq> [] \<and>
          indent_of (split_nl out ! i) = indent_of (split_nl segment ! i) - m
        else split_nl out ! i = []) \<and>
     (\<forall>i j k. i < length (split_nl segment) \<and> j < length (split_nl segment) \<and>
        strip_py (split_nl segment ! i) \<noteq> [] \<and> strip_py (split_nl segment ! j) \<noteq> [] \<and>
        indent_of (split_nl segment ! i) = indent_of (split_nl segment ! j) + k
        \<longrightarrow> indent_of (split_nl out ! i) = indent_of (split_nl out ! j) + k)"
proof -
  let ?L = "split_nl segment"
  have tr: "strip_py segment = segment" using assms by (rule extracted_segment_trimmed)
  from dedent_lines_of [of segment] obtain out m where
    out: "dedent segment = Inr out"
    and lines: "split_nl out = map (\<lambda>l. if strip_py l \<noteq> [] then drop m l else []) ?L"
    and m: "\<forall>l\<in>set ?L. strip_py l \<noteq> [] \<longrightarrow> min_indent_of ?L = enat m \<and> m \<le> indent_of l"
    unfolding tr by blast
  have len: "length (split_nl out) = length ?L" by (simp add: lines)
  have nb: "min_indent_of ?L = enat m" "m \<le> indent_of (?L ! i)"
      "split_nl out ! i = drop m (?L ! i)" "strip_py (split_nl out ! i) \<noteq> []"
      "indent_of (split_nl out ! i) = indent_of (?L ! i) - m"
    if i: "i < length ?L" and True: "strip_py (?L ! i) \<noteq> []" for i
  proof -
    from i have "?L ! i \<in> set ?L" by simp
    with m True show mi: "min_indent_of ?L = enat m" "m \<le> indent_of (?L ! i)" by blast+
    from i True show o: "split_nl out ! i = drop m (?L ! i)" by (simp add: lines)
    from drop_within_indent [OF True mi(2)]
    show "strip_py (split_nl out ! i) \<noteq> []"
      "indent_of (split_nl out ! i) = indent_of (?L ! i) - m"
      unfolding o by simp_all
  qed
  have bl: "split_nl out ! i = []" if "i < length ?L" "\<not> strip_py (?L ! i) \<noteq> []" for i
    using that by (simp add: lines)
  have line: "\<forall>i<length ?L. if strip_py (?L ! i) \<noteq> [] then
          min_indent_of ?L = enat m \<and> m \<le> indent_of (?L ! i) \<and>
          split_nl out ! i = drop m (?L ! i) \<and>
          strip_py (split_nl out ! i) \<noteq> [] \<and>
          indent_of (split_nl out ! i) = indent_of (?L ! i) - m
        else split_nl out ! i = []"
    using nb bl by presburger
  have rel: "indent_of (split_nl out ! i) = indent_of (split_nl out ! j) + k"
    if "i < length ?L" "j < length ?L" "strip_py (?L ! i) \<noteq> []" "strip_py (?L ! j) \<noteq> []"
      "indent_of (?L ! i) = indent_of (?L ! j) + k" for i j k
    using nb(2,5) [OF that(1) that(3)] nb(2,5) [OF that(2) that(4)] that(5) by linarith
  from out len line rel show ?thesis by blast
qed


section \<open>Facts about the search\<close>

lemma lazy_group_None_iff: "lazy_group cl s = None \<longleftrightarrow> \<not> sublist cl s"
  by (induction s) (auto simp: sublist_Cons_right)

lemma lazy_group_first_close:
  "\<forall>k<length g. \<not> prefix cl (drop k (g @ cl @ post)) \<Longrightarrow>
   lazy_group cl (g @ cl @ post) = Some g"
proof (induction g)
  case Nil
  have "prefix cl (cl @ post)" by simp
  then show ?case by (cases "cl @ post") simp_all
next
  case (Cons c g)
  from Cons.prems have "\<not> prefix cl (drop 0 ((c # g) @ cl @ post))" by blast
  then have 0: "\<not> prefix cl (c # g @ cl @ post)" by simp
  have "\<forall>k<length g. \<not> prefix cl (drop k (g @ cl @ post))"
  proof (intro allI impI)
    fix k assume "k < length g"
    then have "Suc k < length (c # g)" by simp
    with Cons.prems have "\<not> prefix cl (drop (Suc k) ((c # g) @ cl @ post))" by blast
    then show "\<not> prefix cl (drop k (g @ cl @ post))" by simp
  qed
  with Cons.IH 0 show ?case by simp
qed

lemma re_search_no_close: "\<not> sublist cl s \<Longrightarrow> re_search op cl s = None"
proof (induction s)
  case Nil
  then show ?case by (simp add: lazy_group_None_iff [symmetric])
next
  case (Cons c cs)
  have "sublist (drop (length op) (c # cs)) (c # cs)" by (rule sublist_drop)
  with Cons.prems have "\<not> sublist cl (drop (length op) (c # cs))"
    using sublist_order.order.trans by blast
  then have "lazy_group cl (drop (length op) (c # cs)) = None"
    by (simp add: lazy_group_None_iff)
  moreover from Cons have "re_search op cl cs = None" by (simp add: sublist_Cons_right)
  ultimately show ?case by simp
qed

lemma re_search_no_open: "\<not> sublist op s \<Longrightarrow> re_search op cl s = None"
  by (induction s) (auto simp: sublist_Cons_right)

lemma re_search_first_open:
  assumes "\<forall>k<length pre. \<not> prefix op (drop k (pre @ op @ rest))" and "op \<noteq> []"
  shows "re_search op cl (pre @ op @ rest) =
     (case lazy_group cl rest of Some g \<Rightarrow> Some g | None \<Rightarrow> re_search op cl (tl op @ rest))"
  using assms(1)
proof (induction pre)
  case Nil
  from assms(2) obtain c cs where op: "op = c # cs" by (cases op) auto
  have "drop (length op) (op @ rest) = rest" by simp
  then show ?case unfolding op by (simp del: drop_append cong: option.case_cong)
next
  case (Cons p pre)
  from Cons.prems have "\<not> prefix op (drop 0 ((p # pre) @ op @ rest))" by blast
  then have 0: "\<not> prefix op (p # pre @ op @ rest)" by simp
  have "\<forall>k<length pre. \<not> prefix op (drop k (pre @ op @ rest))"
  proof (intro allI impI)
    fix k assume "k < length pre"
    then have "Suc k < length (p # pre)" by simp
    with Cons.prems have "\<not> prefix op (drop (Suc k) ((p # pre) @ op @ rest))" by blast
    then show "\<not> prefix op (drop k (pre @ op @ rest))" by simp
  qed
  with Cons.IH 0 show ?case by simp
qed

lemma map_of_store_match:
  "map_of (store_match name response_text segments) k =
     (if k = name then
        (case search_tag name response_text of
           Some g \<Rightarrow> Some (strip_py g)
         | None \<Rightarrow> map_of segments k)
      else map_of segments k)"
  by (simp add: store_match_def update_conv' split: option.splits)

lemma map_of_extract_code_segments:
  "map_of (extract_code_segments response_text) name =
     (if name \<in> set segment_names then map_option strip_py (search_tag name response_text)
      else None)"
  by (simp add: extract_code_segments_def map_of_store_match segment_names_def
      split: option.splits)


section \<open>The first match of a tag\<close>

lemma no_close_after_open_tail:
  assumes "name \<in> set segment_names" and "\<not> sublist (close_tag name) rest"
  shows "\<not> sublist (close_tag name) (tl (open_tag name) @ rest)"
  using assms
  by (auto simp: segment_names_def open_tag_def close_tag_def sublist_Cons_right)

text \<open>
  C4. In a model output whose first opening tag of a name stands after \<open>pre\<close>: when the
  text after it is \<open>inner\<close>, the closing tag and \<open>post\<close>, with no closing tag starting
  inside \<open>inner\<close>, the segment stored under the name is \<open>inner\<close> trimmed, whatever
  \<open>inner\<close> and \<open>post\<close> contain (further opening or closing tags too); when no closing tag
  follows the opening tag, no segment is stored under the name.
\<close>

theorem extract_first_nongreedy_match:
  assumes "name \<in> set segment_names"
    and "\<forall>k<length pre. \<not> prefix (open_tag name) (drop k (pre @ open_tag name @ rest))"
  shows "(\<forall>inner post.
            rest = inner @ close_tag name @ post \<and>
            (\<forall>k<length inner. \<not> prefix (close_tag name) (drop k rest)) \<longrightarrow>
            map_of (extract_code_segments (pre @ open_tag name @ rest)) name
              = Some (strip_py inner))
       \<and> (\<not> sublist (close_tag name) rest \<longrightarrow>
            map_of (extract_code_segments (pre @ open_tag name @ rest)) name = None)"
proof -
  have ne: "open_tag name \<noteq> []" by (simp add: open_tag_def)
  note first = re_search_first_open [OF assms(2) ne, of "close_tag name"]
  have a: "map_of (extract_code_segments (pre @ open_tag name @ rest)) name = Some (strip_py inner)"
    if "rest = inner @ close_tag name @ post"
      and "\<forall>k<length inner. \<not> prefix (close_tag name) (drop k rest)" for inner post
  proof -
    from that have "lazy_group (close_tag name) rest = Some inner"
      using lazy_group_first_close [of inner "close_tag name" post] by simp
    with first have "search_tag name (pre @ open_tag name @ rest) = Some inner"
      by (simp add: search_tag_def)
    with assms(1) show ?thesis by (simp add: map_of_extract_code_segments)
  qed
  have b: "map_of (extract_code_segments (pre @ open_tag name @ rest)) name = None"
    if "\<not> sublist (close_tag name) rest"
  proof -
    from that have "lazy_group (close_tag name) rest = None"
      by (simp add: lazy_group_None_iff)
    moreover have "re_search (open_tag name) (close_tag name) (tl (open_tag name) @ rest) = None"
      using no_close_after_open_tail [OF assms(1) that] by (rule re_search_no_close)
    ultimately have "search_tag name (pre @ open_tag name @ rest) = None"
      using first by (simp add: search_tag_def)
    with assms(1) show ?thesis by (simp add: map_of_extract_code_segments)
  qed
  from a b show ?thesis by blast
qed

theorem extract_first_nongreedy_match_witness:
  "map_of (extract_code_segments ''Result: <answer> a <answer> b </answer> c </answer>'') ''answer''
     = Some ''a <answer> b''
   \<and> map_of (extract_code_segments ''<code>x</code> <answer> never closed'') ''answer'' = None"
proof -
  have n: "''answer'' \<in> set segment_names" by (simp add: segment_names_def)
  have 1: "\<forall>k<length ''Result: ''.
     \<not> prefix (open_tag ''answer'')
          (drop k (''Result: '' @ open_tag ''answer'' @ '' a <answer> b </answer> c </answer>''))"
    by (simp add: open_tag_def All_less_Suc)
  have 2: "'' a <answer> b </answer> c </answer>'' = '' a <answer> b '' @ close_tag ''answer'' @ '' c </answer>''"
    by (simp add: close_tag_def)
  have 3: "\<forall>k<length '' a <answer> b ''.
     \<not> prefix (close_tag ''answer'') (drop k '' a <answer> b </answer> c </answer>'')"
    by (simp add: close_tag_def All_less_Suc)
  have 4: "strip_py '' a <answer> b '' = ''a <answer> b''"
    by (simp add: strip_py_def lstrip_def rstrip_def isspace_def)
  have 5: "\<forall>k<length ''<code>x</code> ''.
     \<not> prefix (open_tag ''answer'')
          (drop k (''<code>x</code> '' @ open_tag ''answer'' @ '' never closed''))"
    by (simp add: open_tag_def All_less_Suc)
  have 6: "\<not> sublist (close_tag ''answer'') '' never closed''"
    by (simp add: close_tag_def sublist_Cons_right)
  from extract_first_nongreedy_match [OF n 1] 2 3
  have "map_of (extract_code_segments
           (''Result: '' @ open_tag ''answer'' @ '' a <answer> b </answer> c </answer>'')) ''answer''
        = Some (strip_py '' a <answer> b '')"
    by blast
  moreover from extract_first_nongreedy_match [OF n 5] 6
  have "map_of (extract_code_segments
           (''<code>x</code> '' @ open_tag ''answer'' @ '' never closed'')) ''answer'' = None"
    by blast
  ultimately show ?thesis by (simp add: 4 open_tag_def)
qed


section \<open>Facts about the interpretation\<close>

lemma run_analysis_unit_absent:
  "map_of segments ''code'' = None \<or> map_of segments ''answer'' = None \<Longrightarrow>
   run_analysis_unit rt segments s = Normal s"
  by (auto simp: run_analysis_unit_def split: option.splits)

lemma run_analysis_unit_present:
  assumes "map_of segments ''code'' = Some c" "map_of segments ''answer'' = Some a"
    and "dedent c = Inr d"
    and "exec_py rt (combined_code d a) (world s) = (raised, w1)"
  shows "run_analysis_unit rt segments s =
     (case raised of
        Some e \<Rightarrow> Raised e (s\<lparr>world := w1, executed := executed s @ [combined_code d a]\<rparr>)
      | None \<Rightarrow>
          Normal (s\<lparr>world := w1, executed := executed s @ [combined_code d a],
                    results := (results s)\<lparr>answer := namespace_get rt ''answer_text'' w1\<rparr>\<rparr>))"
  using assms by (simp add: run_analysis_unit_def split: option.splits)

lemma run_chart_unit_absent:
  "map_of segments ''chart'' = None \<Longrightarrow> run_chart_unit rt segments s = Normal s"
  by (simp add: run_chart_unit_def)

lemma run_chart_unit_present:
  assumes "map_of segments ''chart'' = Some ch" and "dedent ch = Inr dch"
    and "exec_py rt dch (plt_figure rt (world s)) = (raised, w2)"
  shows "run_chart_unit rt segments s =
     (case raised of
        Some e \<Rightarrow> Raised e (s\<lparr>world := w2, executed := executed s @ [dch]\<rparr>)
      | None \<Rightarrow>
          Normal (s\<lparr>world := plt_close rt (snd (plt_gcf rt w2)),
                    executed := executed s @ [dch],
                    results := (results s)\<lparr>figure := Some (fst (plt_gcf rt w2))\<rparr>\<rparr>))"
  using assms by (simp add: run_chart_unit_def split: option.splits prod.splits)

lemma execute_analysis_eq:
  "execute_analysis rt w df response_text =
     (if extract_code_segments response_text = [] then
        Returns \<lparr>world = w, results = empty_results, executed = [],
                 st_errors = [''No code segments found in the response'']\<rparr>
      else
        except_Exception
          (case run_analysis_unit rt (extract_code_segments response_text)
                  (stored_state rt w df (extract_code_segments response_text)) of
             Raised e s \<Rightarrow> Raised e s
           | Normal s \<Rightarrow> run_chart_unit rt (extract_code_segments response_text) s))"
  by (simp add: execute_analysis_def try_body_def store_segment_def stored_state_def
      empty_results_def except_Exception_def Let_def split: option.splits)

lemma final_state_except_Exception:
  "results (final_state (except_Exception c)) = results (completion_state c)"
  "executed (final_state (except_Exception c)) = executed (completion_state c)"
  by (cases c; simp add: except_Exception_def split: sum.splits)+


lemma run_chart_unit_frame:
  "answer (results (completion_state (run_chart_unit rt segments s))) = answer (results s)"
  "approach (results (completion_state (run_chart_unit rt segments s))) = approach (results s)"
  "code (results (completion_state (run_chart_unit rt segments s))) = code (results s)"
  "chart_code (results (completion_state (run_chart_unit rt segments s))) = chart_code (results s)"
  by (simp_all add: run_chart_unit_def dedent_eq Let_def split: option.splits prod.splits)

lemma run_chart_unit_executed:
  "map Inr (executed (completion_state (run_chart_unit rt segments s))) =
     map Inr (executed s) @
     (case map_of segments ''chart'' of None \<Rightarrow> [] | Some ch \<Rightarrow> [dedent ch])"
  by (simp add: run_chart_unit_def dedent_eq Let_def split: option.splits prod.splits)

lemma run_chart_unit_no_figure:
  "map_of segments ''chart'' = None \<Longrightarrow>
   figure (results (completion_state (run_chart_unit rt segments s))) = figure (results s)"
  by (simp add: run_chart_unit_absent)

lemma run_analysis_unit_frame:
  "figure (results (completion_state (run_analysis_unit rt segments s))) = figure (results s)"
  "approach (results (completion_state (run_analysis_unit rt segments s))) = approach (results s)"
  "code (results (completion_state (run_analysis_unit rt segments s))) = code (results s)"
  "chart_code (results (completion_state (run_analysis_unit rt segments s))) = chart_code (results s)"
  by (simp_all add: run_analysis_unit_def dedent_eq Let_def split: option.splits prod.splits)


lemma answer_without_analysis_unit:
  assumes "map_of (extract_code_segments response_text) ''code'' = None \<or>
           map_of (extract_code_segments response_text) ''answer'' = None"
  shows "answer (results (final_state (execute_analysis rt w df response_text))) = None"
  using assms
  by (simp add: execute_analysis_eq final_state_except_Exception run_analysis_unit_absent
      run_chart_unit_frame stored_state_def empty_results_def)

lemma executed_without_analysis_unit:
  assumes "map_of (extract_code_segments response_text) ''code'' = None \<or>
           map_of (extract_code_segments response_text) ''answer'' = None"
  shows "map Inr (executed (final_state (execute_analysis rt w df response_text))) =
     (case map_of (extract_code_segments response_text) ''chart'' of
        None \<Rightarrow> [] | Some ch \<Rightarrow> [dedent ch])"
proof (cases "extract_code_segments response_text = []")
  case True
  then show ?thesis by (simp add: execute_analysis_eq)
next
  case False
  with assms show ?thesis
    by (simp add: execute_analysis_eq final_state_except_Exception run_analysis_unit_absent
        run_chart_unit_executed stored_state_def)
qed

lemma figure_without_chart_unit:
  assumes "map_of (extract_code_segments response_text) ''chart'' = None"
  shows "figure (results (final_state (execute_analysis rt w df response_text))) = None"
proof (cases "extract_code_segments response_text = []")
  case True
  then show ?thesis by (simp add: execute_analysis_eq empty_results_def)
next
  case False
  let ?segs = "extract_code_segments response_text"
  let ?A = "run_analysis_unit rt ?segs (stored_state rt w df ?segs)"
  have f: "figure (results (completion_state ?A)) = None"
    by (simp add: run_analysis_unit_frame stored_state_def)
  show ?thesis
  proof (cases ?A)
    case (Normal s)
    with f False assms show ?thesis
      by (simp add: execute_analysis_eq final_state_except_Exception run_chart_unit_absent)
  next
    case (Raised e s)
    with f False show ?thesis
      by (simp add: execute_analysis_eq final_state_except_Exception)
  qed
qed

lemma static_fields:
  "approach (results (final_state (execute_analysis rt w df response_text)))
     = map_of (extract_code_segments response_text) ''approach''"
  "code (results (final_state (execute_analysis rt w df response_text)))
     = map_of (extract_code_segments response_text) ''code''"
  "chart_code (results (final_state (execute_analysis rt w df response_text)))
     = map_of (extract_code_segments response_text) ''chart''"
proof -
  let ?segs = "extract_code_segments response_text"
  let ?A = "run_analysis_unit rt ?segs (stored_state rt w df ?segs)"
  have "approach (results (final_state (execute_analysis rt w df response_text))) = map_of ?segs ''approach''
    \<and> code (results (final_state (execute_analysis rt w df response_text))) = map_of ?segs ''code''
    \<and> chart_code (results (final_state (execute_analysis rt w df response_text))) = map_of ?segs ''chart''"
  proof (cases "?segs = []")
    case True
    then show ?thesis by (simp add: execute_analysis_eq empty_results_def)
  next
    case False
    have f: "approach (results (completion_state ?A)) = map_of ?segs ''approach''"
      "code (results (completion_state ?A)) = map_of ?segs ''code''"
      "chart_code (results (completion_state ?A)) = map_of ?segs ''chart''"
      by (simp_all add: run_analysis_unit_frame stored_state_def)
    show ?thesis
    proof (cases ?A)
      case (Normal s)
      with f False show ?thesis
        by (simp add: execute_analysis_eq final_state_except_Exception run_chart_unit_frame)
    next
      case (Raised e s)
      with f False show ?thesis
        by (simp add: execute_analysis_eq final_state_except_Exception)
    qed
  qed
  then show
    "approach (results (final_state (execute_analysis rt w df response_text))) = map_of ?segs ''approach''"
    "code (results (final_state (execute_analysis rt w df response_text))) = map_of ?segs ''code''"
    "chart_code (results (final_state (execute_analysis rt w df response_text))) = map_of ?segs ''chart''"
    by simp_all
qed

lemmas run_defs =
  execute_analysis_eq stored_state_def run_analysis_unit_def run_chart_unit_def
  except_Exception_def empty_results_def combined_code_def triple_quote_def
  scripted_runtime_def scripted_exec_def SyntaxError_def SystemExit_def
  extract_code_segments_def store_match_def search_tag_def open_tag_def close_tag_def
  dedent_def strip_py_def lstrip_def rstrip_def isspace_def min_indent_of_def
  indent_of_def dedent_line_def slice_from_def


section \<open>The analysis unit needs both segments\<close>

text \<open>
  C9. When the code segment or the answer segment is missing from the extracted
  segments, the analysis unit is not run: the answer field is null, the code field holds
  the code segment if there is one, and the only text handed to \<open>exec\<close> is the
  dedented chart segment, if there is one.
\<close>

theorem analysis_unit_needs_code_and_answer:
  assumes "map_of (extract_code_segments response_text) ''code'' = None \<or>
           map_of (extract_code_segments response_text) ''answer'' = None"
  shows "answer (results (final_state (execute_analysis rt w df response_text))) = None \<and>
     code (results (final_state (execute_analysis rt w df response_text)))
       = map_of (extract_code_segments response_text) ''code'' \<and>
     map Inr (executed (final_state (execute_analysis rt w df response_text))) =
       (case map_of (extract_code_segments response_text) ''chart'' of
          None \<Rightarrow> [] | Some ch \<Rightarrow> [dedent ch])"
proof (intro conjI)
  show "answer (results (final_state (execute_analysis rt w df response_text))) = None"
    using assms by (rule answer_without_analysis_unit)
  show "code (results (final_state (execute_analysis rt w df response_text)))
       = map_of (extract_code_segments response_text) ''code''"
    by (rule static_fields(2))
  show "map Inr (executed (final_state (execute_analysis rt w df response_text))) =
       (case map_of (extract_code_segments response_text) ''chart'' of
          None \<Rightarrow> [] | Some ch \<Rightarrow> [dedent ch])"
    using assms by (rule executed_without_analysis_unit)
qed

theorem analysis_unit_needs_code_and_answer_witness:
  "map_of (extract_code_segments ''<code>x = 1</code><chart>plt.plot([1])</chart>'') ''answer'' = None
   \<and> answer (results (final_state (execute_analysis (scripted_runtime []) (None, 0) ()
         ''<code>x = 1</code><chart>plt.plot([1])</chart>''))) = None
   \<and> code (results (final_state (execute_analysis (scripted_runtime []) (None, 0) ()
         ''<code>x = 1</code><chart>plt.plot([1])</chart>''))) = Some ''x = 1''
   \<and> executed (final_state (execute_analysis (scripted_runtime []) (None, 0) ()
         ''<code>x = 1</code><chart>plt.plot([1])</chart>'')) = [''plt.plot([1])'']
   \<and> map_of (extract_code_segments ''<answer>Total: {total}</answer>'') ''code'' = None
   \<and> answer (results (final_state (execute_analysis (scripted_runtime []) (None, 0) ()
         ''<answer>Total: {total}</answer>''))) = None
   \<and> executed (final_state (execute_analysis (scripted_runtime []) (None, 0) ()
         ''<answer>Total: {total}</answer>'')) = []"
proof -
  have a: "map_of (extract_code_segments ''<code>x = 1</code><chart>plt.plot([1])</chart>'') ''answer'' = None"
    by (simp add: run_defs)
  have c: "map_of (extract_code_segments ''<code>x = 1</code><chart>plt.plot([1])</chart>'') ''code''
            = Some ''x = 1''"
    by (simp add: run_defs)
  have ch: "map_of (extract_code_segments ''<code>x = 1</code><chart>plt.plot([1])</chart>'') ''chart''
            = Some ''plt.plot([1])''"
    by (simp add: run_defs)
  have d: "dedent ''plt.plot([1])'' = Inr ''plt.plot([1])''"
    by (simp add: run_defs)
  have b: "map_of (extract_code_segments ''<answer>Total: {total}</answer>'') ''code'' = None"
    by (simp add: run_defs)
  have bch: "map_of (extract_code_segments ''<answer>Total: {total}</answer>'') ''chart'' = None"
    by (simp add: run_defs)
  from analysis_unit_needs_code_and_answer
         [of "''<code>x = 1</code><chart>plt.plot([1])</chart>''" "scripted_runtime []" "(None, 0)" "()"]
    a c ch d
  have 1: "answer (results (final_state (execute_analysis (scripted_runtime []) (None, 0) ()
         ''<code>x = 1</code><chart>plt.plot([1])</chart>''))) = None"
    "code (results (final_state (execute_analysis (scripted_runtime []) (None, 0) ()
         ''<code>x = 1</code><chart>plt.plot([1])</chart>''))) = Some ''x = 1''"
    "executed (final_state (execute_analysis (scripted_runtime []) (None, 0) ()
         ''<code>x = 1</code><chart>plt.plot([1])</chart>'')) = [''plt.plot([1])'']"
    by (simp_all add: map_eq_Cons_conv)
  from analysis_unit_needs_code_and_answer
         [of "''<answer>Total: {total}</answer>''" "scripted_runtime []" "(None, 0)" "()"]
    b bch
  have 2: "answer (results (final_state (execute_analysis (scripted_runtime []) (None, 0) ()
         ''<answer>Total: {total}</answer>''))) = None"
    "executed (final_state (execute_analysis (scripted_runtime []) (None, 0) ()
         ''<answer>Total: {total}</answer>'')) = []"
    by simp_all
  from a b 1 2 show ?thesis by simp
qed


section \<open>Tag names are matched exactly\<close>

text \<open>
  C10. The pattern is matched character by character, with no flag that ignores case.
  For each of the four names: a model output in which the lowercase opening tag or the
  lowercase closing tag does not occur (as when the tags are written \<open><Answer>\<close> or
  \<open><CODE>\<close>) yields no segment for the name, and the result fields that depend on the
  segment are null.
\<close>

theorem tag_match_is_case_sensitive:
  assumes "name \<in> set segment_names"
    and "\<not> sublist (open_tag name) response_text \<or> \<not> sublist (close_tag name) response_text"
  shows "map_of (extract_code_segments response_text) name = None \<and>
     (name = ''approach'' \<longrightarrow>
        approach (results (final_state (execute_analysis rt w df response_text))) = None) \<and>
     (name = ''code'' \<longrightarrow>
        code (results (final_state (execute_analysis rt w df response_text))) = None \<and>
        answer (results (final_state (execute_analysis rt w df response_text))) = None) \<and>
     (name = ''chart'' \<longrightarrow>
        chart_code (results (final_state (execute_analysis rt w df response_text))) = None \<and>
        figure (results (final_state (execute_analysis rt w df response_text))) = None) \<and>
     (name = ''answer'' \<longrightarrow>
        answer (results (final_state (execute_analysis rt w df response_text))) = None)"
proof -
  from assms(2) have "search_tag name response_text = None"
    unfolding search_tag_def using re_search_no_open re_search_no_close by blast
  with assms(1) have none: "map_of (extract_code_segments response_text) name = None"
    by (simp add: map_of_extract_code_segments)
  then show ?thesis
    using static_fields [of rt w df response_text]
      answer_without_analysis_unit [of response_text rt w df]
      figure_without_chart_unit [of response_text rt w df]
    by auto
qed

theorem tag_match_is_case_sensitive_witness:
  "map_of (extract_code_segments ''<Answer>hi</Answer><CODE>x = 1</CODE>'') ''answer'' = None
   \<and> map_of (extract_code_segments ''<Answer>hi</Answer><CODE>x = 1</CODE>'') ''code'' = None
   \<and> answer (results (final_state (execute_analysis (scripted_runtime []) (None, 0) ()
         ''<Answer>hi</Answer><CODE>x = 1</CODE>''))) = None
   \<and> code (results (final_state (execute_analysis (scripted_runtime []) (None, 0) ()
         ''<Answer>hi</Answer><CODE>x = 1</CODE>''))) = None"
proof -
  have n: "''answer'' \<in> set segment_names" "''code'' \<in> set segment_names"
    by (simp_all add: segment_names_def)
  have a: "\<not> sublist (open_tag ''answer'') ''<Answer>hi</Answer><CODE>x = 1</CODE>''
           \<or> \<not> sublist (close_tag ''answer'') ''<Answer>hi</Answer><CODE>x = 1</CODE>''"
    by (simp add: open_tag_def sublist_Cons_right)
  have c: "\<not> sublist (open_tag ''code'') ''<Answer>hi</Answer><CODE>x = 1</CODE>''
           \<or> \<not> sublist (close_tag ''code'') ''<Answer>hi</Answer><CODE>x = 1</CODE>''"
    by (simp add: open_tag_def sublist_Cons_right)
  from tag_match_is_case_sensitive [OF n(1) a, of "scripted_runtime []" "(None, 0)" "()"]
    tag_match_is_case_sensitive [OF n(2) c, of "scripted_runtime []" "(None, 0)" "()"]
  show ?thesis by simp
qed


section \<open>What reaches the caller\<close>

lemma segments_not_empty: "map_of segments k = Some v \<Longrightarrow> segments \<noteq> []"
  by auto


lemma except_Exception_Returns:
  "exn_class_of e = ExceptionClass \<Longrightarrow> exn_str e = Inr m \<Longrightarrow>
   except_Exception (Raised e s)
     = Returns (s\<lparr>st_errors := st_errors s @ [''Error during execution: '' @ m]\<rparr>)"
  by (simp add: except_Exception_def)

lemma except_Exception_str_raises:
  "exn_class_of e = ExceptionClass \<Longrightarrow> exn_str e = Inl e' \<Longrightarrow>
   except_Exception (Raised e s) = Propagates e' s"
  by (simp add: except_Exception_def)

lemma except_Exception_not_caught:
  "exn_class_of e = BaseExceptionOnly \<Longrightarrow> except_Exception (Raised e s) = Propagates e s"
  by (simp add: except_Exception_def)

lemma except_Exception_Normal: "except_Exception (Normal s) = Returns s"
  by (simp add: except_Exception_def)




text \<open>The call when both units are there, and when the analysis unit is skipped.\<close>

lemma execute_analysis_both_units:
  assumes "map_of (extract_code_segments response_text) ''code'' = Some c"
    and "map_of (extract_code_segments response_text) ''answer'' = Some a"
    and "dedent c = Inr d"
    and "exec_py rt (combined_code d a) (new_namespace rt df w) = (raised, w1)"
  shows "execute_analysis rt w df response_text =
     except_Exception
       (case raised of
          Some e \<Rightarrow>
            Raised e ((stored_state rt w df (extract_code_segments response_text))
                        \<lparr>world := w1, executed := [combined_code d a]\<rparr>)
        | None \<Rightarrow>
            run_chart_unit rt (extract_code_segments response_text)
              ((stored_state rt w df (extract_code_segments response_text))
                 \<lparr>world := w1, executed := [combined_code d a],
                  results := (results (stored_state rt w df (extract_code_segments response_text)))
                               \<lparr>answer := namespace_get rt ''answer_text'' w1\<rparr>\<rparr>))"
proof -
  let ?segs = "extract_code_segments response_text"
  have ne: "?segs \<noteq> []" using assms(1) by (rule segments_not_empty)
  have w: "world (stored_state rt w df ?segs) = new_namespace rt df w"
    and x: "executed (stored_state rt w df ?segs) = []"
    by (simp_all add: stored_state_def)
  from assms(4) have "exec_py rt (combined_code d a) (world (stored_state rt w df ?segs)) = (raised, w1)"
    by (simp only: w)
  from run_analysis_unit_present [OF assms(1,2,3) this] ne show ?thesis
    by (simp add: execute_analysis_eq x split: option.splits)
qed








text \<open>
  Nor does the handler always return: when the chart segment defines an exception class
  whose \<open>__str__\<close> raises and raises an instance of it, the handler catches the
  instance, and \<open>str(e)\<close> in the handler raises the \<open>RuntimeError\<close> that leaves the call.
\<close>

lemma str_raising_exception_leaves_handler:
  "execute_analysis
      (scripted_runtime
         [(''class Bad(Exception):\<newline>    def __str__(self): raise RuntimeError()\<newline>raise Bad()'',
           Some (PyExnStrRaises ExceptionClass (PyExn ExceptionClass [])), None)])
      (None, 0) ()
      ''<chart>class Bad(Exception):\<newline>    def __str__(self): raise RuntimeError()\<newline>raise Bad()</chart>''
   = Propagates (PyExn ExceptionClass [])
      \<lparr>world = (None, 1),
       results = \<lparr>approach = None, answer = None, figure = None, code = None,
                  chart_code = Some ''class Bad(Exception):\<newline>    def __str__(self): raise RuntimeError()\<newline>raise Bad()''\<rparr>,
       executed = [''class Bad(Exception):\<newline>    def __str__(self): raise RuntimeError()\<newline>raise Bad()''],
       st_errors = []\<rparr>"
  by (simp add: run_defs)


section \<open>One handler for both units\<close>

text \<open>
  C1, as the code has it. Both units run inside one \<open>try\<close> block, the analysis unit
  first. For a model output with a code, an answer and a chart segment: when the analysis
  unit raises, control leaves the block, so the chart unit is not run and answer and
  figure are null in the result; when the analysis unit succeeds and the chart unit
  raises, the result keeps the answer and the figure is null; in both cases the call
  returns the result when the exception derives from \<open>Exception\<close> and \<open>str(e)\<close>
  gives a text. When both units succeed, the call returns the answer and a figure.
\<close>

theorem analysis_failure_skips_chart_unit:
  assumes "map_of (extract_code_segments response_text) ''code'' = Some c"
    and "map_of (extract_code_segments response_text) ''answer'' = Some a"
    and "map_of (extract_code_segments response_text) ''chart'' = Some ch"
    and "dedent c = Inr d" and "dedent ch = Inr dch"
  shows "(\<forall>e w1. exec_py rt (combined_code d a) (new_namespace rt df w) = (Some e, w1) \<longrightarrow>
            answer (results (final_state (execute_analysis rt w df response_text))) = None \<and>
            figure (results (final_state (execute_analysis rt w df response_text))) = None \<and>
            executed (final_state (execute_analysis rt w df response_text)) = [combined_code d a] \<and>
            (exn_class_of e = ExceptionClass \<and> (\<exists>m. exn_str e = Inr m) \<longrightarrow>
               (\<exists>s. execute_analysis rt w df response_text = Returns s)))
       \<and> (\<forall>e w1 w2. exec_py rt (combined_code d a) (new_namespace rt df w) = (None, w1) \<and>
                  exec_py rt dch (plt_figure rt w1) = (Some e, w2) \<longrightarrow>
            answer (results (final_state (execute_analysis rt w df response_text)))
              = namespace_get rt ''answer_text'' w1 \<and>
            figure (results (final_state (execute_analysis rt w df response_text))) = None \<and>
            executed (final_state (execute_analysis rt w df response_text))
              = [combined_code d a, dch] \<and>
            (exn_class_of e = ExceptionClass \<and> (\<exists>m. exn_str e = Inr m) \<longrightarrow>
               (\<exists>s. execute_analysis rt w df response_text = Returns s)))
       \<and> (\<forall>w1 w2. exec_py rt (combined_code d a) (new_namespace rt df w) = (None, w1) \<and>
                  exec_py rt dch (plt_figure rt w1) = (None, w2) \<longrightarrow>
            (\<exists>s. execute_analysis rt w df response_text = Returns s \<and>
                 answer (results s) = namespace_get rt ''answer_text'' w1 \<and>
                 figure (results s) = Some (fst (plt_gcf rt w2)) \<and>
                 executed s = [combined_code d a, dch]))"
proof (intro conjI allI impI)
  fix e w1
  assume x: "exec_py rt (combined_code d a) (new_namespace rt df w) = (Some e, w1)"
  note eq = execute_analysis_both_units [OF assms(1,2,4) x]
  show "answer (results (final_state (execute_analysis rt w df response_text))) = None"
    "figure (results (final_state (execute_analysis rt w df response_text))) = None"
    "executed (final_state (execute_analysis rt w df response_text)) = [combined_code d a]"
    by (simp_all add: eq final_state_except_Exception stored_state_def)
  assume "exn_class_of e = ExceptionClass \<and> (\<exists>m. exn_str e = Inr m)"
  then obtain m where "exn_class_of e = ExceptionClass" "exn_str e = Inr m" by blast
  then show "\<exists>s. execute_analysis rt w df response_text = Returns s"
    by (simp add: eq except_Exception_Returns)
next
  fix e w1 w2
  assume "exec_py rt (combined_code d a) (new_namespace rt df w) = (None, w1) \<and>
          exec_py rt dch (plt_figure rt w1) = (Some e, w2)"
  then have x: "exec_py rt (combined_code d a) (new_namespace rt df w) = (None, w1)"
    and y: "exec_py rt dch (plt_figure rt w1) = (Some e, w2)" by simp_all
  note eq = execute_analysis_both_units [OF assms(1,2,4) x]
  show "answer (results (final_state (execute_analysis rt w df response_text)))
          = namespace_get rt ''answer_text'' w1"
    "figure (results (final_state (execute_analysis rt w df response_text))) = None"
    "executed (final_state (execute_analysis rt w df response_text)) = [combined_code d a, dch]"
    using y
    by (simp_all add: eq final_state_except_Exception run_chart_unit_present [OF assms(3,5)]
        stored_state_def)
  assume "exn_class_of e = ExceptionClass \<and> (\<exists>m. exn_str e = Inr m)"
  then obtain m where "exn_class_of e = ExceptionClass" "exn_str e = Inr m" by blast
  then show "\<exists>s. execute_analysis rt w df response_text = Returns s"
    using y
    by (simp add: eq run_chart_unit_present [OF assms(3,5)] except_Exception_Returns)
next
  fix w1 w2
  assume "exec_py rt (combined_code d a) (new_namespace rt df w) = (None, w1) \<and>
          exec_py rt dch (plt_figure rt w1) = (None, w2)"
  then have x: "exec_py rt (combined_code d a) (new_namespace rt df w) = (None, w1)"
    and y: "exec_py rt dch (plt_figure rt w1) = (None, w2)" by simp_all
  show "\<exists>s. execute_analysis rt w df response_text = Returns s \<and>
            answer (results s) = namespace_get rt ''answer_text'' w1 \<and>
            figure (results s) = Some (fst (plt_gcf rt w2)) \<and>
            executed s = [combined_code d a, dch]"
    using y
    by (simp add: execute_analysis_both_units [OF assms(1,2,4) x]
        run_chart_unit_present [OF assms(3,5)] except_Exception_Normal stored_state_def)
qed

text \<open>
  A code segment with a syntax error, an answer template and a chart segment that runs
  without error: the handler returns when the analysis unit fails, and the chart
  segment is never handed to \<open>exec\<close>; the figure is null.
\<close>

theorem failed_analysis_leaves_chart_unrun:
  "exec_py (scripted_runtime
             [(combined_code ''total ='' ''x'',
               Some (SyntaxError ''invalid syntax (<string>, line 2)''), None)])
      ''plt.plot([1])'' (None, 1) = (None, (None, 1))
   \<and> execute_analysis
        (scripted_runtime
           [(combined_code ''total ='' ''x'',
             Some (SyntaxError ''invalid syntax (<string>, line 2)''), None)])
        (None, 0) () ''<code>total =</code><answer>x</answer><chart>plt.plot([1])</chart>''
     = Returns
        \<lparr>world = (None, 0),
         results = \<lparr>approach = None, answer = None, figure = None, code = Some ''total ='',
                    chart_code = Some ''plt.plot([1])''\<rparr>,
         executed = [combined_code ''total ='' ''x''],
         st_errors = [''Error during execution: invalid syntax (<string>, line 2)'']\<rparr>"
  by (simp add: run_defs)

theorem analysis_failure_skips_chart_unit_witness:
  "answer (results (final_state (execute_analysis
      (scripted_runtime
         [(combined_code ''total ='' ''x'',
           Some (SyntaxError ''invalid syntax (<string>, line 2)''), None)])
      (None, 0) () ''<code>total =</code><answer>x</answer><chart>plt.plot([1])</chart>''))) = None
   \<and> figure (results (final_state (execute_analysis
      (scripted_runtime
         [(combined_code ''total ='' ''x'',
           Some (SyntaxError ''invalid syntax (<string>, line 2)''), None)])
      (None, 0) () ''<code>total =</code><answer>x</answer><chart>plt.plot([1])</chart>''))) = None
   \<and> executed (final_state (execute_analysis
      (scripted_runtime
         [(combined_code ''total ='' ''x'',
           Some (SyntaxError ''invalid syntax (<string>, line 2)''), None)])
      (None, 0) () ''<code>total =</code><answer>x</answer><chart>plt.plot([1])</chart>''))
       = [combined_code ''total ='' ''x'']
   \<and> (\<exists>s. execute_analysis
      (scripted_runtime
         [(combined_code ''total ='' ''x'',
           Some (SyntaxError ''invalid syntax (<string>, line 2)''), None)])
      (None, 0) () ''<code>total =</code><answer>x</answer><chart>plt.plot([1])</chart>''
        = Returns s)
   \<and> answer (results (final_state (execute_analysis
          (scripted_runtime
             [(combined_code ''total = 1'' ''{total}'', None, Some ''1''),
              (''plot ='', Some (SyntaxError ''invalid syntax (<string>, line 1)''), None)])
          (None, 0) () ''<code>total = 1</code><answer>{total}</answer><chart>plot =</chart>'')))
       = Some ''1''
   \<and> figure (results (final_state (execute_analysis
          (scripted_runtime
             [(combined_code ''total = 1'' ''{total}'', None, Some ''1''),
              (''plot ='', Some (SyntaxError ''invalid syntax (<string>, line 1)''), None)])
          (None, 0) () ''<code>total = 1</code><answer>{total}</answer><chart>plot =</chart>'')))
       = None
   \<and> (\<exists>s. execute_analysis
          (scripted_runtime [(combined_code ''total = 1'' ''{total}'', None, Some ''1'')])
          (None, 0) () ''<code>total = 1</code><answer>{total}</answer><chart>plt.plot([1])</chart>''
        = Returns s \<and>
        answer (results s) = Some ''1'' \<and> figure (results s) = Some 1)"
proof -
  let ?rtA = "scripted_runtime
         [(combined_code ''total ='' ''x'',
           Some (SyntaxError ''invalid syntax (<string>, line 2)''), None)]"
  let ?tA = "''<code>total =</code><answer>x</answer><chart>plt.plot([1])</chart>''"
  let ?rtB = "scripted_runtime
             [(combined_code ''total = 1'' ''{total}'', None, Some ''1''),
              (''plot ='', Some (SyntaxError ''invalid syntax (<string>, line 1)''), None)]"
  let ?tB = "''<code>total = 1</code><answer>{total}</answer><chart>plot =</chart>''"
  let ?rtC = "scripted_runtime [(combined_code ''total = 1'' ''{total}'', None, Some ''1'')]"
  let ?tC = "''<code>total = 1</code><answer>{total}</answer><chart>plt.plot([1])</chart>''"
  have segA: "map_of (extract_code_segments ?tA) ''code'' = Some ''total =''"
    "map_of (extract_code_segments ?tA) ''answer'' = Some ''x''"
    "map_of (extract_code_segments ?tA) ''chart'' = Some ''plt.plot([1])''"
    by (simp_all add: run_defs)
  have segB: "map_of (extract_code_segments ?tB) ''code'' = Some ''total = 1''"
    "map_of (extract_code_segments ?tB) ''answer'' = Some ''{total}''"
    "map_of (extract_code_segments ?tB) ''chart'' = Some ''plot =''"
    by (simp_all add: run_defs)
  have segC: "map_of (extract_code_segments ?tC) ''code'' = Some ''total = 1''"
    "map_of (extract_code_segments ?tC) ''answer'' = Some ''{total}''"
    "map_of (extract_code_segments ?tC) ''chart'' = Some ''plt.plot([1])''"
    by (simp_all add: run_defs)
  have d: "dedent ''total ='' = Inr ''total =''" "dedent ''total = 1'' = Inr ''total = 1''"
    "dedent ''plt.plot([1])'' = Inr ''plt.plot([1])''" "dedent ''plot ='' = Inr ''plot =''"
    by (simp_all add: run_defs)
  have xA: "exec_py ?rtA (combined_code ''total ='' ''x'') (new_namespace ?rtA () (None, 0))
              = (Some (SyntaxError ''invalid syntax (<string>, line 2)''), (None, 0))"
    and eA: "exn_class_of (SyntaxError ''invalid syntax (<string>, line 2)'') = ExceptionClass \<and>
       (\<exists>m. exn_str (SyntaxError ''invalid syntax (<string>, line 2)'') = Inr m)"
    by (simp_all add: run_defs)
  have xB: "exec_py ?rtB (combined_code ''total = 1'' ''{total}'') (new_namespace ?rtB () (None, 0))
              = (None, (Some ''1'', 0)) \<and>
            exec_py ?rtB ''plot ='' (plt_figure ?rtB (Some ''1'', 0))
              = (Some (SyntaxError ''invalid syntax (<string>, line 1)''), (Some ''1'', 1))"
    by (simp add: run_defs)
  have xC: "exec_py ?rtC (combined_code ''total = 1'' ''{total}'') (new_namespace ?rtC () (None, 0))
              = (None, (Some ''1'', 0)) \<and>
            exec_py ?rtC ''plt.plot([1])'' (plt_figure ?rtC (Some ''1'', 0))
              = (None, (Some ''1'', 1))"
    by (simp add: run_defs)
  have gB: "namespace_get ?rtB ''answer_text'' (Some ''1'', 0) = Some ''1''"
    and gC: "namespace_get ?rtC ''answer_text'' (Some ''1'', 0) = Some ''1''"
    and fC: "fst (plt_gcf ?rtC (Some ''1'', 1)) = 1"
    by (simp_all add: scripted_runtime_def)
  from analysis_failure_skips_chart_unit [OF segA d(1) d(3), of ?rtA "()" "(None, 0)"] xA eA
  have A: "answer (results (final_state (execute_analysis ?rtA (None, 0) () ?tA))) = None"
    "figure (results (final_state (execute_analysis ?rtA (None, 0) () ?tA))) = None"
    "executed (final_state (execute_analysis ?rtA (None, 0) () ?tA)) = [combined_code ''total ='' ''x'']"
    "\<exists>s. execute_analysis ?rtA (None, 0) () ?tA = Returns s"
    by blast+
  from analysis_failure_skips_chart_unit [OF segB d(2) d(4), of ?rtB "()" "(None, 0)"] xB
  have "answer (results (final_state (execute_analysis ?rtB (None, 0) () ?tB)))
          = namespace_get ?rtB ''answer_text'' (Some ''1'', 0)"
    "figure (results (final_state (execute_analysis ?rtB (None, 0) () ?tB))) = None"
    by blast+
  then have B: "answer (results (final_state (execute_analysis ?rtB (None, 0) () ?tB))) = Some ''1''"
    "figure (results (final_state (execute_analysis ?rtB (None, 0) () ?tB))) = None"
    unfolding gB by simp_all
  from analysis_failure_skips_chart_unit [OF segC d(2) d(3), of ?rtC "()" "(None, 0)"] xC
  have "\<exists>s. execute_analysis ?rtC (None, 0) () ?tC = Returns s \<and>
        answer (results s) = namespace_get ?rtC ''answer_text'' (Some ''1'', 0) \<and>
        figure (results s) = Some (fst (plt_gcf ?rtC (Some ''1'', 1))) \<and>
        executed s = [combined_code ''total = 1'' ''{total}'', ''plt.plot([1])'']"
    by blast
  then have C: "\<exists>s. execute_analysis ?rtC (None, 0) () ?tC = Returns s \<and>
        answer (results s) = Some ''1'' \<and> figure (results s) = Some 1"
    unfolding gC fC by blast
  from A B C show ?thesis by blast
qed

text \<open>
  C8, as the code has it. The raw texts are stored before anything is executed. When
  the analysis unit raises, the answer is null and \<open>code\<close> and \<open>chart_code\<close> hold the
  extracted texts. The call returns that result when the exception derives from
  \<open>Exception\<close> (a syntax error in the code segment, for one) and \<open>str(e)\<close> gives a
  text; it lets through what \<open>str(e)\<close> raises in the handler, and an exception that
  does not derive from \<open>Exception\<close>.
\<close>

theorem failed_code_keeps_raw_sources:
  assumes "map_of (extract_code_segments response_text) ''code'' = Some c"
    and "map_of (extract_code_segments response_text) ''answer'' = Some a"
    and "dedent c = Inr d"
    and "exec_py rt (combined_code d a) (new_namespace rt df w) = (Some e, w1)"
  shows "answer (results (final_state (execute_analysis rt w df response_text))) = None \<and>
     code (results (final_state (execute_analysis rt w df response_text))) = Some c \<and>
     chart_code (results (final_state (execute_analysis rt w df response_text)))
       = map_of (extract_code_segments response_text) ''chart'' \<and>
     (exn_class_of e = ExceptionClass \<and> (\<exists>m. exn_str e = Inr m) \<longrightarrow>
        (\<exists>s. execute_analysis rt w df response_text = Returns s)) \<and>
     (\<forall>e'. exn_class_of e = ExceptionClass \<and> exn_str e = Inl e' \<longrightarrow>
        (\<exists>s. execute_analysis rt w df response_text = Propagates e' s)) \<and>
     (exn_class_of e = BaseExceptionOnly \<longrightarrow>
        (\<exists>s. execute_analysis rt w df response_text = Propagates e s))"
proof (intro conjI allI impI)
  note eq = execute_analysis_both_units [OF assms]
  show "answer (results (final_state (execute_analysis rt w df response_text))) = None"
    by (simp add: eq final_state_except_Exception stored_state_def)
  show "code (results (final_state (execute_analysis rt w df response_text))) = Some c"
    using assms(1) by (simp add: eq final_state_except_Exception stored_state_def)
  show "chart_code (results (final_state (execute_analysis rt w df response_text)))
       = map_of (extract_code_segments response_text) ''chart''"
    by (simp add: eq final_state_except_Exception stored_state_def)
  show "\<exists>s. execute_analysis rt w df response_text = Returns s"
    if "exn_class_of e = ExceptionClass \<and> (\<exists>m. exn_str e = Inr m)"
  proof -
    from that obtain m where "exn_class_of e = ExceptionClass" "exn_str e = Inr m" by blast
    then show ?thesis by (simp add: eq except_Exception_Returns)
  qed
  show "\<exists>s. execute_analysis rt w df response_text = Propagates e' s"
    if "exn_class_of e = ExceptionClass \<and> exn_str e = Inl e'" for e'
    using that by (simp add: eq except_Exception_str_raises)
  show "\<exists>s. execute_analysis rt w df response_text = Propagates e s"
    if "exn_class_of e = BaseExceptionOnly"
    using that by (simp add: eq except_Exception_not_caught)
qed

theorem failed_code_keeps_raw_sources_witness:
  "answer (results (final_state (execute_analysis
      (scripted_runtime
         [(combined_code ''total ='' ''Total: {total}'',
           Some (SyntaxError ''invalid syntax (<string>, line 2)''), None)])
      (None, 0) ()
      ''<code>total =</code><chart>plt.plot([1])</chart><answer>Total: {total}</answer>''))) = None
   \<and> code (results (final_state (execute_analysis
      (scripted_runtime
         [(combined_code ''total ='' ''Total: {total}'',
           Some (SyntaxError ''invalid syntax (<string>, line 2)''), None)])
      (None, 0) ()
      ''<code>total =</code><chart>plt.plot([1])</chart><answer>Total: {total}</answer>'')))
       = Some ''total =''
   \<and> chart_code (results (final_state (execute_analysis
      (scripted_runtime
         [(combined_code ''total ='' ''Total: {total}'',
           Some (SyntaxError ''invalid syntax (<string>, line 2)''), None)])
      (None, 0) ()
      ''<code>total =</code><chart>plt.plot([1])</chart><answer>Total: {total}</answer>'')))
       = Some ''plt.plot([1])''
   \<and> (\<exists>s. execute_analysis
      (scripted_runtime
         [(combined_code ''total ='' ''Total: {total}'',
           Some (SyntaxError ''invalid syntax (<string>, line 2)''), None)])
      (None, 0) ()
      ''<code>total =</code><chart>plt.plot([1])</chart><answer>Total: {total}</answer>''
        = Returns s)
   \<and> (\<exists>s. execute_analysis
      (scripted_runtime [(combined_code ''exit()'' ''bye'', Some SystemExit, None)])
      (None, 0) () ''<code>exit()</code><answer>bye</answer>''
        = Propagates SystemExit s)"
proof -
  let ?rt = "scripted_runtime
         [(combined_code ''total ='' ''Total: {total}'',
           Some (SyntaxError ''invalid syntax (<string>, line 2)''), None)]"
  let ?t = "''<code>total =</code><chart>plt.plot([1])</chart><answer>Total: {total}</answer>''"
  let ?rtX = "scripted_runtime [(combined_code ''exit()'' ''bye'', Some SystemExit, None)]"
  let ?tX = "''<code>exit()</code><answer>bye</answer>''"
  have seg: "map_of (extract_code_segments ?t) ''code'' = Some ''total =''"
    "map_of (extract_code_segments ?t) ''answer'' = Some ''Total: {total}''"
    and ch: "map_of (extract_code_segments ?t) ''chart'' = Some ''plt.plot([1])''"
    by (simp_all add: run_defs)
  have segX: "map_of (extract_code_segments ?tX) ''code'' = Some ''exit()''"
    "map_of (extract_code_segments ?tX) ''answer'' = Some ''bye''"
    by (simp_all add: run_defs)
  have d: "dedent ''total ='' = Inr ''total =''" and dX: "dedent ''exit()'' = Inr ''exit()''"
    by (simp_all add: run_defs)
  have x: "exec_py ?rt (combined_code ''total ='' ''Total: {total}'') (new_namespace ?rt () (None, 0))
              = (Some (SyntaxError ''invalid syntax (<string>, line 2)''), (None, 0))"
    and e: "exn_class_of (SyntaxError ''invalid syntax (<string>, line 2)'') = ExceptionClass \<and>
       (\<exists>m. exn_str (SyntaxError ''invalid syntax (<string>, line 2)'') = Inr m)"
    by (simp_all add: run_defs)
  have xX: "exec_py ?rtX (combined_code ''exit()'' ''bye'') (new_namespace ?rtX () (None, 0))
              = (Some SystemExit, (None, 0))"
    and eX: "exn_class_of SystemExit = BaseExceptionOnly"
    by (simp_all add: run_defs)
  from failed_code_keeps_raw_sources [OF seg d x] e
  have 1: "answer (results (final_state (execute_analysis ?rt (None, 0) () ?t))) = None"
    "code (results (final_state (execute_analysis ?rt (None, 0) () ?t))) = Some ''total =''"
    "chart_code (results (final_state (execute_analysis ?rt (None, 0) () ?t)))
       = map_of (extract_code_segments ?t) ''chart''"
    "\<exists>s. execute_analysis ?rt (None, 0) () ?t = Returns s"
    by blast+
  from failed_code_keeps_raw_sources [OF segX dX xX] eX
  have 2: "\<exists>s. execute_analysis ?rtX (None, 0) () ?tX = Propagates SystemExit s"
    by blast
  from 1 2 show ?thesis unfolding ch by blast
qed

text \<open>
  A code segment that ends the interpreter: \<open>SystemExit\<close> is not an \<open>Exception\<close>, the
  handler does not catch it, and the call returns no result.
\<close>

theorem system_exit_in_code_propagates:
  "execute_analysis
      (scripted_runtime [(combined_code ''raise SystemExit'' ''done'', Some SystemExit, None)])
      (None, 0) () ''<code>raise SystemExit</code><answer>done</answer>''
   = Propagates SystemExit
      \<lparr>world = (None, 0),
       results = \<lparr>approach = None, answer = None, figure = None,
                  code = Some ''raise SystemExit'', chart_code = None\<rparr>,
       executed = [combined_code ''raise SystemExit'' ''done''], st_errors = []\<rparr>"
  by (simp add: run_defs)


section \<open>The sum of sales\<close>

text \<open>
  The model output of the specification's example. Its code segment is one line, so the
  dedent block leaves it as it is, and the text handed to \<open>exec\<close> is the line, the
  comment and the assignment of the f-string of the answer template. What \<open>exec\<close>
  makes of that text is Python's and pandas' part (the sum of the column and how the
  f-string formats it); when it raises nothing, the result has the approach text, as
  answer whatever \<open>answer_text\<close> is bound to afterwards, and no figure.
\<close>

lemma sum_sales_example_unit:
  assumes "exec_py rt
             (''\<newline>total = df['sales'].sum()\<newline>\<newline># Format the answer template\<newline>answer_text = f''
                @ [CHR 0x27, CHR 0x27, CHR 0x27] @ ''Total sales: {total}''
                @ [CHR 0x27, CHR 0x27, CHR 0x27] @ ''\<newline>'')
             (new_namespace rt df w) = (None, w1)"
  shows "\<exists>s. execute_analysis rt w df
            ''<approach>Sum sales</approach><code>total = df['sales'].sum()</code><answer>Total sales: {total}</answer>''
          = Returns s \<and>
          approach (results s) = Some ''Sum sales'' \<and>
          answer (results s) = namespace_get rt ''answer_text'' w1 \<and>
          figure (results s) = None \<and>
          executed s =
            [''\<newline>total = df['sales'].sum()\<newline>\<newline># Format the answer template\<newline>answer_text = f''
                @ [CHR 0x27, CHR 0x27, CHR 0x27] @ ''Total sales: {total}''
                @ [CHR 0x27, CHR 0x27, CHR 0x27] @ ''\<newline>'']"
proof -
  let ?t = "''<approach>Sum sales</approach><code>total = df['sales'].sum()</code><answer>Total sales: {total}</answer>''"
  have segs: "extract_code_segments ?t =
      [(''approach'', ''Sum sales''), (''code'', ''total = df['sales'].sum()''),
       (''answer'', ''Total sales: {total}'')]"
    by (simp add: extract_code_segments_def store_match_def search_tag_def open_tag_def
        close_tag_def strip_py_def lstrip_def rstrip_def isspace_def)
  have d: "dedent ''total = df['sales'].sum()'' = Inr ''total = df['sales'].sum()''"
    by (simp add: dedent_def strip_py_def lstrip_def rstrip_def isspace_def min_indent_of_def
        indent_of_def dedent_line_def slice_from_def)
  have u: "combined_code ''total = df['sales'].sum()'' ''Total sales: {total}'' =
      ''\<newline>total = df['sales'].sum()\<newline>\<newline># Format the answer template\<newline>answer_text = f''
        @ [CHR 0x27, CHR 0x27, CHR 0x27] @ ''Total sales: {total}''
        @ [CHR 0x27, CHR 0x27, CHR 0x27] @ ''\<newline>''"
    by (simp add: combined_code_def triple_quote_def)
  have c: "map_of (extract_code_segments ?t) ''code'' = Some ''total = df['sales'].sum()''"
    and a: "map_of (extract_code_segments ?t) ''answer'' = Some ''Total sales: {total}''"
    and ch: "map_of (extract_code_segments ?t) ''chart'' = None"
    and ap: "map_of (extract_code_segments ?t) ''approach'' = Some ''Sum sales''"
    unfolding segs by simp_all
  from assms have x: "exec_py rt
      (combined_code ''total = df['sales'].sum()'' ''Total sales: {total}'')
      (new_namespace rt df w) = (None, w1)"
    by (simp only: u)
  have "\<exists>s. execute_analysis rt w df ?t = Returns s \<and>
          approach (results s) = Some ''Sum sales'' \<and>
          answer (results s) = namespace_get rt ''answer_text'' w1 \<and>
          figure (results s) = None \<and>
          executed s = [combined_code ''total = df['sales'].sum()'' ''Total sales: {total}'']"
    by (simp add: execute_analysis_both_units [OF c a d x] run_chart_unit_absent [OF ch]
        except_Exception_Normal stored_state_def ap)
  then show ?thesis by (simp only: u)
qed

end
